theory Spec2Isabelle
  imports
    Main
    "HOL-Library.Multiset"
    "HOL-Library.Sublist"
    "HOL-Library.List_Lexorder"
    "HOL-Library.Char_ord"
begin

section \<open>The three tables of fifa.py\<close>

text \<open>
  The dashboard reads three CSV files into pandas data frames and derives every chart
  and table from them. A data frame is modelled as the list of its rows, a row as a
  record holding the columns that fifa.py reads. A column that the code tests for
  missing values (\<open>dropna\<close>, \<open>value_counts\<close>, \<open>groupby\<close>) is an \<open>option\<close>:
  \<open>None\<close> is pandas' NaN.

  The Attendance column is dynamically typed in the source: pandas reads it as text,
  because a field such as \<open>1.045.246\<close> is not the spelling of a number, and the
  views convert it to a number. A cell is therefore text, a
  number or NaN. The number type \<open>'n\<close> is left open: it stands for the float that
  \<open>astype(float)\<close> produces. Goal counts are whole numbers (pandas holds them as
  floats once a value of the column is missing), so they are of type \<open>int\<close>.
\<close>

datatype 'n cell = StrV string | NumV 'n | NaN

record 'n tournament =
  Year :: int
  Country :: string
  Winner :: "string option"
  RunnersUp :: string
  GoalsScored :: int
  MatchesPlayed :: int
  QualifiedTeams :: int
  Attendance :: "'n cell"

record match =
  MatchYear :: int
  Stage :: "string option"
  HomeTeamName :: string
  HomeTeamGoals :: "int option"
  AwayTeamName :: string
  AwayTeamGoals :: "int option"

text \<open>\<open>matches_clean\<close> after line 190: the match columns and the new column Total Goals.\<close>

record match_tg = match +
  TotalGoals :: "int option"

record player =
  PlayerName :: "string option"
  Position :: "string option"
  TeamInitials :: "string option"
  CoachName :: "string option"

text \<open>
  Exceptions. The string of an exception names the value that could not be converted
  (ValueError of \<open>astype\<close>), the column that is missing (KeyError) or the call that
  raised it.
\<close>

datatype error = AttributeError | ValueError string | KeyError string | TypeError string

text \<open>
  A column carries a dtype besides its values. \<open>read_csv\<close> gives every column of a
  file without rows the object dtype. Otherwise a column of whole numbers is numeric
  (int64 when no value is missing, float64 when one is), and a column with text in
  it has the object dtype.
\<close>

datatype dtype = ObjectDtype | NumericDtype

section \<open>Machine numbers\<close>

text \<open>
  The numbers of a numeric column are machine numbers. An int64 column wraps around
  at \<open>2^63\<close>. A float64 column rounds once a result needs more than 53 bits. Both
  are exact on whole numbers as long as the absolute values involved add up to at
  most \<open>2^53\<close>.

  Which of the two the goal columns are depends on the file, and how a float64 sum
  rounds depends on the order numpy adds in. The addition of two goal columns and
  the sum of a goal column are therefore parameters of the model; \<open>exact_add\<close> and
  \<open>exact_sum\<close> state what int64 and float64 both guarantee.
\<close>

definition int64 :: "int \<Rightarrow> int" where
  "int64 x = (x + 2 ^ 63) mod 2 ^ 64 - 2 ^ 63"

definition int64_add :: "int \<Rightarrow> int \<Rightarrow> int" where
  "int64_add x y = int64 (x + y)"

definition int64_sum :: "int list \<Rightarrow> int" where
  "int64_sum xs = int64 (sum_list xs)"

definition exact_add :: "(int \<Rightarrow> int \<Rightarrow> int) \<Rightarrow> bool" where
  "exact_add add = (\<forall>x y. \<bar>x\<bar> + \<bar>y\<bar> \<le> 2 ^ 53 \<longrightarrow> add x y = x + y)"

definition exact_sum :: "(int list \<Rightarrow> int) \<Rightarrow> bool" where
  "exact_sum col_sum =
     (\<forall>xs. sum_list (map abs xs) \<le> 2 ^ 53 \<longrightarrow> col_sum xs = sum_list xs)"

section \<open>The pandas operations that fifa.py calls\<close>

text \<open>
  pandas itself is not part of the repository; each operation is written out with the
  behaviour its documentation gives for the arguments that fifa.py passes.
\<close>

text \<open>The distinct values of a column in order of first appearance.\<close>

fun unique :: "'a list \<Rightarrow> 'a list" where
  "unique [] = []"
| "unique (x # xs) = x # unique (filter (\<lambda>y. y \<noteq> x) xs)"

text \<open>The values of a column that are present.\<close>

fun notna :: "'a option list \<Rightarrow> 'a list" where
  "notna [] = []"
| "notna (None # xs) = notna xs"
| "notna (Some x # xs) = x # notna xs"

text \<open>
  \<open>sort_values(ascending=False)\<close> on a column of counts: the largest first. pandas
  sorts with its default sort, which is not stable, so the order of equal counts is
  not fixed by pandas; here they keep the order they had before, and the statements
  about charts of counts below leave the order of equal counts open.
\<close>

definition sort_values_desc :: "('a \<times> nat) list \<Rightarrow> ('a \<times> nat) list" where
  "sort_values_desc s = sort_key (\<lambda>kc. - int (snd kc)) s"

text \<open>
  \<open>Series.value_counts()\<close>: NaN is dropped, every distinct value gets the number of
  its occurrences, the values are taken in order of first appearance and then
  ordered by descending count.
\<close>

definition value_counts :: "'a option list \<Rightarrow> ('a \<times> nat) list" where
  "value_counts s =
     (let vs = notna s
      in sort_values_desc (map (\<lambda>k. (k, count_list vs k)) (unique vs)))"

text \<open>\<open>head(n)\<close>: the first n rows, all of them if there are fewer.\<close>

definition head :: "nat \<Rightarrow> 'a list \<Rightarrow> 'a list" where
  "head n df = take n df"

text \<open>\<open>tail(n)\<close>: the last n rows, all of them if there are fewer.\<close>

definition tail :: "nat \<Rightarrow> 'a list \<Rightarrow> 'a list" where
  "tail n df = drop (length df - n) df"

text \<open>
  \<open>Series.sum()\<close> skips NaN and adds the values that are present with the sum of
  the column's dtype.
\<close>

definition series_sum :: "(int list \<Rightarrow> int) \<Rightarrow> int option list \<Rightarrow> int" where
  "series_sum col_sum s = col_sum (notna s)"

text \<open>
  Adding two numeric columns row by row, with the addition of their dtype: NaN in
  either operand gives NaN.
\<close>

fun series_add :: "(int \<Rightarrow> int \<Rightarrow> int) \<Rightarrow> int option \<Rightarrow> int option \<Rightarrow> int option" where
  "series_add add (Some x) (Some y) = Some (add x y)"
| "series_add add _ _ = None"

text \<open>
  Sorting rows by descending value. \<open>mergesort_desc\<close> is the stable sort that pandas
  calls mergesort: rows of equal value keep their order. The default sort of
  \<open>sort_values\<close> is documented as not stable, and which order it gives to rows of
  equal value differs between versions and machines; it is a parameter of the model,
  of which \<open>sorts_desc\<close> states what every sort guarantees: the result holds the same
  rows, in descending order. \<open>reversed_sort_desc\<close> is such a sort that is not stable.
\<close>

definition mergesort_desc :: "('r \<Rightarrow> int) \<Rightarrow> 'r list \<Rightarrow> 'r list" where
  "mergesort_desc key df = sort_key (\<lambda>r. - key r) df"

definition reversed_sort_desc :: "('r \<Rightarrow> int) \<Rightarrow> 'r list \<Rightarrow> 'r list" where
  "reversed_sort_desc key df = rev (sort_key key df)"

definition sorts_desc :: "(('r \<Rightarrow> int) \<Rightarrow> 'r list \<Rightarrow> 'r list) \<Rightarrow> bool" where
  "sorts_desc srt =
     (\<forall>key df. mset (srt key df) = mset df \<and> sorted_wrt (\<lambda>a b. key b \<le> key a) (srt key df))"

text \<open>
  \<open>nlargest(n, col)\<close> with the default \<open>keep='first'\<close>, as pandas 2.2 has it (the
  repository names no version). A column of object dtype raises TypeError. When the
  frame has at most n rows, the result is \<open>sort_values(col, ascending=False).head(n)\<close>:
  the default sort \<open>srt\<close>, rows with NaN in the column last. Otherwise the rows that
  have a value are sorted with mergesort, so that among equal values the rows that
  come first in the frame are preferred and stay in frame order; the first n are
  returned, and rows with NaN fill up what is left of n.
\<close>

definition nlargest ::
  "(('r \<Rightarrow> int) \<Rightarrow> 'r list \<Rightarrow> 'r list) \<Rightarrow> nat \<Rightarrow> ('r \<Rightarrow> int option) \<Rightarrow> dtype \<Rightarrow> 'r list
     \<Rightarrow> error + 'r list" where
  "nlargest srt n col dt df =
     (if dt = ObjectDtype then Inl (TypeError ''nlargest'')
      else
        (let valid = filter (\<lambda>r. col r \<noteq> None) df;
             missing = filter (\<lambda>r. col r = None) df
         in if length df \<le> n
            then Inr (take n (srt (\<lambda>r. the (col r)) valid @ missing))
            else Inr (take n (mergesort_desc (\<lambda>r. the (col r)) valid @ missing))))"

text \<open>
  \<open>groupby(key)[val].nunique()\<close>: rows with NaN in the key are left out, the groups
  are listed in ascending key order, and each group gets the number of distinct
  values of \<open>val\<close> that are present.
\<close>

definition groupby_nunique ::
  "('r \<Rightarrow> 'k::linorder option) \<Rightarrow> ('r \<Rightarrow> 'v option) \<Rightarrow> 'r list \<Rightarrow> ('k \<times> nat) list" where
  "groupby_nunique key val df =
     map (\<lambda>k. (k, length (unique (notna (map val (filter (\<lambda>r. key r = Some k) df))))))
         (sort (unique (notna (map key df))))"

section \<open>Match Statistics (show_match_stats)\<close>

text \<open>Line 187: \<open>matches.dropna(subset=['Home Team Goals', 'Away Team Goals'])\<close>.\<close>

definition dropna_goals :: "match list \<Rightarrow> match list" where
  "dropna_goals matches =
     filter (\<lambda>r. HomeTeamGoals r \<noteq> None \<and> AwayTeamGoals r \<noteq> None) matches"

text \<open>
  The dtype that \<open>read_csv\<close> gives the goal columns, and that \<open>dropna\<close> and the sum
  of the two columns keep.
\<close>

definition read_csv_goals_dtype :: "match list \<Rightarrow> dtype" where
  "read_csv_goals_dtype matches = (if matches = [] then ObjectDtype else NumericDtype)"

text \<open>
  Line 190: the column Total Goals is Home Team Goals + Away Team Goals, added with
  the addition \<open>add\<close> of the columns' dtype.
\<close>

definition with_total_goals :: "(int \<Rightarrow> int \<Rightarrow> int) \<Rightarrow> match \<Rightarrow> match_tg" where
  "with_total_goals add r =
     match.extend r \<lparr>TotalGoals = series_add add (HomeTeamGoals r) (AwayTeamGoals r)\<rparr>"

definition matches_clean :: "(int \<Rightarrow> int \<Rightarrow> int) \<Rightarrow> match list \<Rightarrow> match_tg list" where
  "matches_clean add matches = map (with_total_goals add) (dropna_goals matches)"

text \<open>Lines 191-192: the six columns shown in the table of highest scoring matches.\<close>

record scoring_row =
  sYear :: int
  sHomeTeamName :: string
  sHomeTeamGoals :: "int option"
  sAwayTeamName :: string
  sAwayTeamGoals :: "int option"
  sTotalGoals :: "int option"

definition scoring_columns :: "match_tg \<Rightarrow> scoring_row" where
  "scoring_columns r =
     \<lparr>sYear = MatchYear r, sHomeTeamName = HomeTeamName r, sHomeTeamGoals = HomeTeamGoals r,
      sAwayTeamName = AwayTeamName r, sAwayTeamGoals = AwayTeamGoals r,
      sTotalGoals = TotalGoals r\<rparr>"

text \<open>
  \<open>dt\<close> is the dtype of the column Total Goals, \<open>srt\<close> the default sort of
  \<open>sort_values\<close>.
\<close>

definition highest_scoring ::
  "((match_tg \<Rightarrow> int) \<Rightarrow> match_tg list \<Rightarrow> match_tg list) \<Rightarrow> dtype \<Rightarrow> match_tg list
     \<Rightarrow> error + scoring_row list" where
  "highest_scoring srt dt clean =
     (case nlargest srt 10 TotalGoals dt clean of
        Inl e \<Rightarrow> Inl e
      | Inr rows \<Rightarrow> Inr (map scoring_columns rows))"

text \<open>Line 201: the histogram is drawn from the column Total Goals of \<open>matches_clean\<close>.\<close>

definition total_goals_column :: "match_tg list \<Rightarrow> int option list" where
  "total_goals_column clean = map TotalGoals clean"

text \<open>Lines 208-209, each with the sum of its column's dtype.\<close>

definition home_goals :: "(int list \<Rightarrow> int) \<Rightarrow> match_tg list \<Rightarrow> int" where
  "home_goals col_sum clean = series_sum col_sum (map HomeTeamGoals clean)"

definition away_goals :: "(int list \<Rightarrow> int) \<Rightarrow> match_tg list \<Rightarrow> int" where
  "away_goals col_sum clean = series_sum col_sum (map AwayTeamGoals clean)"

text \<open>Line 219.\<close>

definition stage_counts :: "match_tg list \<Rightarrow> (string \<times> nat) list" where
  "stage_counts clean = head 10 (value_counts (map Stage clean))"

record match_stats_out =
  out_highest_scoring :: "scoring_row list"
  out_histogram :: "int option list"
  out_home_goals :: int
  out_away_goals :: int
  out_stage_counts :: "(string \<times> nat) list"

text \<open>
  Lines 220, 234 and 241 draw a bar chart from a column of counts with
  \<open>px.bar(counts, x=counts.index, y=counts.values, ...)\<close>. When the column is empty,
  plotly takes both \<open>x\<close> and \<open>y\<close> for lists of column names and raises ValueError.
\<close>

definition bar_chart :: "('a \<times> nat) list \<Rightarrow> error + ('a \<times> nat) list" where
  "bar_chart counts = (if counts = [] then Inl (ValueError ''px.bar'') else Inr counts)"

text \<open>What the machine and the pandas version decide for show_match_stats.\<close>

record machine =
  add_goals :: "int \<Rightarrow> int \<Rightarrow> int"
  sum_home :: "int list \<Rightarrow> int"
  sum_away :: "int list \<Rightarrow> int"
  sort_totals :: "(match_tg \<Rightarrow> int) \<Rightarrow> match_tg list \<Rightarrow> match_tg list"

definition int64_machine :: machine where
  "int64_machine =
     \<lparr>add_goals = int64_add, sum_home = int64_sum, sum_away = int64_sum,
      sort_totals = mergesort_desc\<rparr>"

text \<open>
  Lines 191-224 in order: an exception of \<open>nlargest\<close> or of the bar chart ends the
  view.
\<close>

definition match_stats :: "machine \<Rightarrow> dtype \<Rightarrow> match_tg list \<Rightarrow> error + match_stats_out" where
  "match_stats m dt clean =
     (case highest_scoring (sort_totals m) dt clean of
        Inl e \<Rightarrow> Inl e
      | Inr highest \<Rightarrow>
          (case bar_chart (stage_counts clean) of
             Inl e \<Rightarrow> Inl e
           | Inr chart \<Rightarrow>
               Inr \<lparr>out_highest_scoring = highest,
                    out_histogram = total_goals_column clean,
                    out_home_goals = home_goals (sum_home m) clean,
                    out_away_goals = away_goals (sum_away m) clean,
                    out_stage_counts = chart\<rparr>))"

section \<open>Player Analysis (show_player_analysis)\<close>

text \<open>Line 230: \<open>players.dropna(subset=['Player Name'])\<close>.\<close>

definition players_clean :: "player list \<Rightarrow> player list" where
  "players_clean players = filter (\<lambda>r. PlayerName r \<noteq> None) players"

text \<open>Line 233.\<close>

definition position_counts :: "player list \<Rightarrow> (string \<times> nat) list" where
  "position_counts clean = head 10 (value_counts (map Position clean))"

text \<open>Line 240.\<close>

definition team_players :: "player list \<Rightarrow> (string \<times> nat) list" where
  "team_players clean =
     head 20 (sort_values_desc (groupby_nunique TeamInitials PlayerName clean))"

text \<open>Line 249.\<close>

definition coach_counts :: "player list \<Rightarrow> (string \<times> nat) list" where
  "coach_counts clean = head 10 (value_counts (map CoachName clean))"

record player_out =
  out_position_counts :: "(string \<times> nat) list"
  out_team_players :: "(string \<times> nat) list"
  out_coach_counts :: "(string \<times> nat) list"

text \<open>Lines 233-250 in order: an exception of a bar chart ends the view.\<close>

definition player_analysis :: "player list \<Rightarrow> error + player_out" where
  "player_analysis clean =
     (case bar_chart (position_counts clean) of
        Inl e \<Rightarrow> Inl e
      | Inr positions \<Rightarrow>
          (case bar_chart (team_players clean) of
             Inl e \<Rightarrow> Inl e
           | Inr teams \<Rightarrow>
               Inr \<lparr>out_position_counts = positions,
                    out_team_players = teams,
                    out_coach_counts = coach_counts clean\<rparr>))"

section \<open>World Cup Winners (show_winners)\<close>

text \<open>Line 126: \<open>world_cups['Winner'].value_counts().reset_index()\<close>.\<close>

definition winner_counts :: "'n tournament list \<Rightarrow> (string \<times> nat) list" where
  "winner_counts world_cups = value_counts (map Winner world_cups)"

text \<open>Line 146: the tournaments whose host is the winner.\<close>

definition host_winners :: "'n tournament list \<Rightarrow> 'n tournament list" where
  "host_winners world_cups = filter (\<lambda>r. Some (Country r) = Winner r) world_cups"

record winners_out =
  out_winners_chart :: "(string \<times> nat) list"
  out_host_wins :: nat
  out_host_countries :: "string list"

definition winners :: "'n tournament list \<Rightarrow> winners_out" where
  "winners world_cups =
     \<lparr>out_winners_chart = head 10 (winner_counts world_cups),
      out_host_wins = length (host_winners world_cups),
      out_host_countries = map Country (host_winners world_cups)\<rparr>"

section \<open>Cleaning the Attendance column\<close>

text \<open>
  Lines 119 and 154 apply \<open>.str.replace('.', '').astype(float)\<close> to the Attendance
  column.

  \<open>read_csv\<close> gives the Attendance column the object dtype when some cell of it is
  text (and when the file has no rows), a numeric dtype otherwise; a part of a column
  (\<open>tail\<close>, \<open>copy\<close>) keeps the dtype of the column, and \<open>astype(float)\<close> gives a
  numeric column.

  The \<open>.str\<close> accessor exists on a column of text only. pandas raises AttributeError
  for a column of numeric dtype, and for a column of object dtype whose values are
  numbers only; an object column with some text in it, or with nothing but NaN, has
  the accessor. There, \<open>replace\<close> removes every dot of a string (a one-character
  pattern is taken literally) and gives NaN for a cell that is not a string.
\<close>

type_synonym 'n series = "dtype \<times> 'n cell list"

definition is_text :: "'n cell \<Rightarrow> bool" where
  "is_text c = (case c of StrV s \<Rightarrow> True | _ \<Rightarrow> False)"

definition is_number :: "'n cell \<Rightarrow> bool" where
  "is_number c = (case c of NumV v \<Rightarrow> True | _ \<Rightarrow> False)"

definition read_csv_dtype :: "'n cell list \<Rightarrow> dtype" where
  "read_csv_dtype col = (if col = [] \<or> list_ex is_text col then ObjectDtype else NumericDtype)"

definition has_str_accessor :: "'n series \<Rightarrow> bool" where
  "has_str_accessor s =
     (fst s = ObjectDtype \<and> (list_ex is_text (snd s) \<or> \<not> list_ex is_number (snd s)))"

definition remove_dots :: "string \<Rightarrow> string" where
  "remove_dots s = filter (\<lambda>ch. ch \<noteq> CHR ''.'') s"

definition str_replace_dot :: "'n cell \<Rightarrow> 'n cell" where
  "str_replace_dot c = (case c of StrV s \<Rightarrow> StrV (remove_dots s) | _ \<Rightarrow> NaN)"

text \<open>
  \<open>astype(float)\<close> converts cell by cell and raises ValueError at the first string
  that is not the spelling of a float. Which strings are, and what their values are,
  is Python's \<open>float\<close>; it is the parameter \<open>to_float\<close>.
\<close>

definition cell_to_float :: "(string \<Rightarrow> 'n option) \<Rightarrow> 'n cell \<Rightarrow> error + 'n cell" where
  "cell_to_float to_float c =
     (case c of
        StrV s \<Rightarrow> (case to_float s of None \<Rightarrow> Inl (ValueError s) | Some v \<Rightarrow> Inr (NumV v))
      | NumV v \<Rightarrow> Inr (NumV v)
      | NaN \<Rightarrow> Inr NaN)"

fun astype_float :: "(string \<Rightarrow> 'n option) \<Rightarrow> 'n cell list \<Rightarrow> error + 'n cell list" where
  "astype_float to_float [] = Inr []"
| "astype_float to_float (c # cs) =
     (case cell_to_float to_float c of
        Inl e \<Rightarrow> Inl e
      | Inr v \<Rightarrow> (case astype_float to_float cs of Inl e \<Rightarrow> Inl e | Inr vs \<Rightarrow> Inr (v # vs)))"

definition clean_attendance ::
  "(string \<Rightarrow> 'n option) \<Rightarrow> 'n series \<Rightarrow> error + 'n series" where
  "clean_attendance to_float s =
     (if has_str_accessor s
      then (case astype_float to_float (map str_replace_dot (snd s)) of
              Inl e \<Rightarrow> Inl e
            | Inr vals \<Rightarrow> Inr (NumericDtype, vals))
      else Inl AttributeError)"

text \<open>
  A reading of plain decimal numerals, the spelling the attendance figures have once
  the dots are removed. It is used to run the model on concrete tables.
\<close>

definition digit_value :: "char \<Rightarrow> int option" where
  "digit_value ch =
     (if ch = CHR ''0'' then Some 0 else if ch = CHR ''1'' then Some 1
      else if ch = CHR ''2'' then Some 2 else if ch = CHR ''3'' then Some 3
      else if ch = CHR ''4'' then Some 4 else if ch = CHR ''5'' then Some 5
      else if ch = CHR ''6'' then Some 6 else if ch = CHR ''7'' then Some 7
      else if ch = CHR ''8'' then Some 8 else if ch = CHR ''9'' then Some 9
      else None)"

fun decimal_from :: "int \<Rightarrow> string \<Rightarrow> int option" where
  "decimal_from acc [] = Some acc"
| "decimal_from acc (ch # s) =
     (case digit_value ch of None \<Rightarrow> None | Some d \<Rightarrow> decimal_from (10 * acc + d) s)"

definition decimal :: "string \<Rightarrow> int option" where
  "decimal s = (if s = [] then None else decimal_from 0 s)"

text \<open>Writing a cleaned column back into the rows (\<open>df['Attendance'] = ...\<close>).\<close>

definition set_attendance :: "'n tournament list \<Rightarrow> 'n cell list \<Rightarrow> 'n tournament list" where
  "set_attendance df col = map (\<lambda>(r, c). r\<lparr>Attendance := c\<rparr>) (zip df col)"

section \<open>Frames as objects: which frame a view writes to\<close>

text \<open>
  Two views assign to a column (\<open>df['Attendance'] = ...\<close>, \<open>df['Total Goals'] = ...\<close>),
  which changes a frame in place. To see which frame that is, frames live in a store:
  a variable of the source holds the address of a frame, \<open>tail\<close>, column selection
  with a list, \<open>copy\<close> and \<open>dropna\<close> build a new frame at a fresh address, and a column
  assignment overwrites the frame at the address of its target.
\<close>

record 'n recent_row =
  rYear :: int
  rCountry :: string
  rWinner :: "string option"
  rRunnersUp :: string
  rGoalsScored :: int
  rAttendance :: "'n cell"

text \<open>
  A frame with an Attendance column holds the dtype of that column beside its rows,
  a frame of matches the dtype of its goal columns.
\<close>

datatype 'n frame =
    WorldCups dtype "'n tournament list"
  | Recent dtype "'n recent_row list"
  | Matches dtype "match list"
  | MatchesTG dtype "match_tg list"
  | Players "player list"

type_synonym addr = nat
type_synonym 'n store = "'n frame list"

definition frame_at :: "'n store \<Rightarrow> addr \<Rightarrow> 'n frame option" where
  "frame_at h a = (if a < length h then Some (h ! a) else None)"

definition alloc :: "'n frame \<Rightarrow> 'n store \<Rightarrow> addr \<times> 'n store" where
  "alloc f h = (length h, h @ [f])"

definition store_frame :: "addr \<Rightarrow> 'n frame \<Rightarrow> 'n store \<Rightarrow> 'n store" where
  "store_frame a f h = h[a := f]"

subsection \<open>show_overview\<close>

text \<open>Line 118: the six columns of the table of recent tournaments.\<close>

definition recent_columns :: "'n tournament \<Rightarrow> 'n recent_row" where
  "recent_columns r =
     \<lparr>rYear = Year r, rCountry = Country r, rWinner = Winner r, rRunnersUp = RunnersUp r,
      rGoalsScored = GoalsScored r, rAttendance = Attendance r\<rparr>"

definition set_recent_attendance :: "'n recent_row list \<Rightarrow> 'n cell list \<Rightarrow> 'n recent_row list" where
  "set_recent_attendance df col = map (\<lambda>(r, c). r\<lparr>rAttendance := c\<rparr>) (zip df col)"

record 'n overview_out =
  out_tournaments :: nat
  out_total_goals :: int
  out_total_matches :: int
  out_total_teams :: int
  out_recent_cups :: "'n recent_row list"

text \<open>
  Lines 76-120. The three totals are sums of int64 columns. When cleaning the
  attendance raises, the view ends with that exception.
\<close>

definition show_overview ::
  "(string \<Rightarrow> 'n option) \<Rightarrow> addr \<Rightarrow> addr \<Rightarrow> addr \<Rightarrow> 'n store
     \<Rightarrow> (error + 'n overview_out) \<times> 'n store" where
  "show_overview to_float world_cups matches players h =
     (case frame_at h world_cups of
        Some (WorldCups dt wc) \<Rightarrow>
          (let (recent_cups, h1) = alloc (Recent dt (map recent_columns (tail 5 wc))) h
           in case frame_at h1 recent_cups of
                Some (Recent rdt rc) \<Rightarrow>
                  (case clean_attendance to_float (rdt, map rAttendance rc) of
                     Inl e \<Rightarrow> (Inl e, h1)
                   | Inr (cdt, col) \<Rightarrow>
                       (let h2 = store_frame recent_cups
                                   (Recent cdt (set_recent_attendance rc col)) h1
                        in case frame_at h2 recent_cups of
                             Some (Recent sdt shown) \<Rightarrow>
                               (Inr \<lparr>out_tournaments = length wc,
                                     out_total_goals = int64_sum (map GoalsScored wc),
                                     out_total_matches = int64_sum (map MatchesPlayed wc),
                                     out_total_teams = int64_sum (map QualifiedTeams wc),
                                     out_recent_cups = shown\<rparr>, h2)
                           | _ \<Rightarrow> (Inl (KeyError ''Attendance''), h2)))
              | _ \<Rightarrow> (Inl (KeyError ''Attendance''), h1))
      | _ \<Rightarrow> (Inl (KeyError ''GoalsScored''), h))"

subsection \<open>show_winners\<close>

definition show_winners :: "addr \<Rightarrow> 'n store \<Rightarrow> (error + winners_out) \<times> 'n store" where
  "show_winners world_cups h =
     (case frame_at h world_cups of
        Some (WorldCups dt wc) \<Rightarrow> (Inr (winners wc), h)
      | _ \<Rightarrow> (Inl (KeyError ''Winner''), h))"

subsection \<open>show_goals_attendance\<close>

record 'n goals_attendance_out =
  out_goals_series :: "(int \<times> int) list"
  out_world_cups_clean :: "'n tournament list"

definition show_goals_attendance ::
  "(string \<Rightarrow> 'n option) \<Rightarrow> addr \<Rightarrow> addr \<Rightarrow> 'n store
     \<Rightarrow> (error + 'n goals_attendance_out) \<times> 'n store" where
  "show_goals_attendance to_float world_cups matches h =
     (case frame_at h world_cups of
        Some (WorldCups dt wc) \<Rightarrow>
          (let (world_cups_clean, h1) = alloc (WorldCups dt wc) h
           in case frame_at h1 world_cups_clean of
                Some (WorldCups wdt wcc) \<Rightarrow>
                  (case clean_attendance to_float (wdt, map Attendance wcc) of
                     Inl e \<Rightarrow> (Inl e, h1)
                   | Inr (cdt, col) \<Rightarrow>
                       (let h2 = store_frame world_cups_clean
                                   (WorldCups cdt (set_attendance wcc col)) h1
                        in case (frame_at h2 world_cups, frame_at h2 world_cups_clean) of
                             (Some (WorldCups rdt raw), Some (WorldCups ndt cleaned)) \<Rightarrow>
                               (Inr \<lparr>out_goals_series = map (\<lambda>r. (Year r, GoalsScored r)) raw,
                                     out_world_cups_clean = cleaned\<rparr>, h2)
                           | _ \<Rightarrow> (Inl (KeyError ''Attendance''), h2)))
              | _ \<Rightarrow> (Inl (KeyError ''Attendance''), h1))
      | _ \<Rightarrow> (Inl (KeyError ''Attendance''), h))"

subsection \<open>show_match_stats\<close>

definition show_match_stats ::
  "machine \<Rightarrow> addr \<Rightarrow> 'n store \<Rightarrow> (error + match_stats_out) \<times> 'n store" where
  "show_match_stats m matches h =
     (case frame_at h matches of
        Some (Matches dt ms) \<Rightarrow>
          (let (matches_clean, h1) = alloc (Matches dt (dropna_goals ms)) h
           in case frame_at h1 matches_clean of
                Some (Matches cdt mc) \<Rightarrow>
                  (let h2 = store_frame matches_clean
                              (MatchesTG cdt (map (with_total_goals (add_goals m)) mc)) h1
                   in case frame_at h2 matches_clean of
                        Some (MatchesTG tdt clean) \<Rightarrow> (match_stats m tdt clean, h2)
                      | _ \<Rightarrow> (Inl (KeyError ''Total Goals''), h2))
              | _ \<Rightarrow> (Inl (KeyError ''Home Team Goals''), h1))
      | _ \<Rightarrow> (Inl (KeyError ''Home Team Goals''), h))"

subsection \<open>show_player_analysis\<close>

definition show_player_analysis ::
  "addr \<Rightarrow> addr \<Rightarrow> 'n store \<Rightarrow> (error + player_out) \<times> 'n store" where
  "show_player_analysis players matches h =
     (case frame_at h players of
        Some (Players ps) \<Rightarrow>
          (let (players_clean, h1) = alloc (Players (players_clean ps)) h
           in case frame_at h1 players_clean of
                Some (Players clean) \<Rightarrow> (player_analysis clean, h1)
              | _ \<Rightarrow> (Inl (KeyError ''Position''), h1))
      | _ \<Rightarrow> (Inl (KeyError ''Player Name''), h))"

section \<open>Loading and dispatch (load_data, main)\<close>

text \<open>
  The file system is the input: for each of the three files, what \<open>pd.read_csv\<close>
  does with it, either the frame it returns or the text of the exception it raises
  (the file is missing, cannot be read or cannot be parsed).
\<close>

record 'n csv_files =
  WorldCups_csv :: "string + 'n tournament list"
  WorldCupMatches_csv :: "string + match list"
  WorldCupPlayers_csv :: "string + player list"

datatype page = Overview | WorldCupWinners | GoalsAttendance | MatchStatistics | PlayerAnalysis

datatype 'n view_out =
    OverviewOut "'n overview_out"
  | WinnersOut winners_out
  | GoalsAttendanceOut "'n goals_attendance_out"
  | MatchStatsOut match_stats_out
  | PlayerOut player_out

text \<open>
  What the page shows, in order: the header, an error box (\<open>st.error\<close>), the output
  of a view, or the exception with which a view ended.
\<close>

datatype 'n event = Header | ErrorMsg string | Shown "'n view_out" | Raised error

text \<open>
  Lines 38-47. The three reads run in order inside one \<open>try\<close>; the first exception
  ends them, is reported, and the result is \<open>None, None, None\<close>. The decorator
  \<open>st.cache_data\<close> saves reading the files again on a later run of the script; one
  run is modelled.
\<close>

definition load_data ::
  "'n csv_files \<Rightarrow> 'n store
     \<Rightarrow> (addr option \<times> addr option \<times> addr option) \<times> 'n event list \<times> 'n store" where
  "load_data files h =
     (case WorldCups_csv files of
        Inl e \<Rightarrow> ((None, None, None), [ErrorMsg (''Error loading data: '' @ e)], h)
      | Inr wc \<Rightarrow>
          (let (world_cups, h1) = alloc (WorldCups (read_csv_dtype (map Attendance wc)) wc) h
           in case WorldCupMatches_csv files of
                Inl e \<Rightarrow> ((None, None, None), [ErrorMsg (''Error loading data: '' @ e)], h1)
              | Inr ms \<Rightarrow>
                  (let (matches, h2) = alloc (Matches (read_csv_goals_dtype ms) ms) h1
                   in case WorldCupPlayers_csv files of
                        Inl e \<Rightarrow>
                          ((None, None, None), [ErrorMsg (''Error loading data: '' @ e)], h2)
                      | Inr ps \<Rightarrow>
                          (let (players, h3) = alloc (Players ps) h2
                           in ((Some world_cups, Some matches, Some players), [], h3)))))"

definition view_event :: "('a \<Rightarrow> 'n view_out) \<Rightarrow> (error + 'a) \<Rightarrow> 'n event" where
  "view_event tag r = (case r of Inl e \<Rightarrow> Raised e | Inr out \<Rightarrow> Shown (tag out))"

text \<open>Lines 49-74. \<open>page\<close> is the choice made in the sidebar, \<open>m\<close> the machine.\<close>

definition main ::
  "machine \<Rightarrow> (string \<Rightarrow> 'n option) \<Rightarrow> 'n csv_files \<Rightarrow> page \<Rightarrow> 'n store
     \<Rightarrow> 'n event list \<times> 'n store" where
  "main m to_float files page h =
     (let ((world_cups, matches, players), log, h1) = load_data files h
      in if world_cups = None \<or> matches = None \<or> players = None
         then (Header # log @
                 [ErrorMsg ''Failed to load data. Please check if CSV files are present.''], h1)
         else
           (let w = the world_cups
            in case page of
                 Overview \<Rightarrow>
                   (let (r, h2) = show_overview to_float w (the matches) (the players) h1
                    in (Header # log @ [view_event OverviewOut r], h2))
               | WorldCupWinners \<Rightarrow>
                   (let (r, h2) = show_winners w h1
                    in (Header # log @ [view_event WinnersOut r], h2))
               | GoalsAttendance \<Rightarrow>
                   (let (r, h2) = show_goals_attendance to_float w (the matches) h1
                    in (Header # log @ [view_event GoalsAttendanceOut r], h2))
               | MatchStatistics \<Rightarrow>
                   (let (r, h2) = show_match_stats m (the matches) h1
                    in (Header # log @ [view_event MatchStatsOut r], h2))
               | PlayerAnalysis \<Rightarrow>
                   (let (r, h2) = show_player_analysis (the players) (the matches) h1
                    in (Header # log @ [view_event PlayerOut r], h2))))"

section \<open>Sample rows\<close>

text \<open>Rows for running the model on small tables; only the columns given vary.\<close>

abbreviation sample_match :: "string option \<Rightarrow> int option \<Rightarrow> int option \<Rightarrow> match" where
  "sample_match stage home away \<equiv>
     \<lparr>MatchYear = 1930, Stage = stage, HomeTeamName = ''France'', HomeTeamGoals = home,
      AwayTeamName = ''Mexico'', AwayTeamGoals = away\<rparr>"

abbreviation sample_scoring :: "int option \<Rightarrow> int option \<Rightarrow> int option \<Rightarrow> scoring_row" where
  "sample_scoring home away goals \<equiv>
     \<lparr>sYear = 1930, sHomeTeamName = ''France'', sHomeTeamGoals = home,
      sAwayTeamName = ''Mexico'', sAwayTeamGoals = away, sTotalGoals = goals\<rparr>"

abbreviation sample_player :: "string option \<Rightarrow> string option \<Rightarrow> string option \<Rightarrow> player" where
  "sample_player name team coach \<equiv>
     \<lparr>PlayerName = name, Position = None, TeamInitials = team, CoachName = coach\<rparr>"

abbreviation sample_cup :: "int \<Rightarrow> string option \<Rightarrow> int cell \<Rightarrow> int tournament" where
  "sample_cup year winner attendance \<equiv>
     \<lparr>Year = year, Country = ''Uruguay'', Winner = winner, RunnersUp = ''Argentina'',
      GoalsScored = 70, MatchesPlayed = 18, QualifiedTeams = 13, Attendance = attendance\<rparr>"

section \<open>Facts about the pandas operations\<close>

lemma notna_conv: "notna xs = map the (filter (\<lambda>x. x \<noteq> None) xs)"
  by (induction xs rule: notna.induct) auto

lemma set_notna: "set (notna xs) = {x. Some x \<in> set xs}"
  by (induction xs rule: notna.induct) auto

lemma notna_append: "notna (xs @ ys) = notna xs @ notna ys"
  by (induction xs rule: notna.induct) auto

lemma notna_map_filter: "notna (map f (filter (\<lambda>r. f r \<noteq> None) xs)) = notna (map f xs)"
  by (induction xs) auto

lemma count_list_notna: "count_list (notna xs) k = count_list xs (Some k)"
  by (induction xs rule: notna.induct) auto

lemma count_list_filter: "count_list xs k = length (filter (\<lambda>x. x = k) xs)"
  by (induction xs) auto

lemma set_unique: "set (unique xs) = set xs"
  by (induction xs rule: unique.induct) auto

lemma distinct_unique: "distinct (unique xs)"
  by (induction xs rule: unique.induct) (auto simp: set_unique)

lemma length_unique: "length (unique xs) = card (set xs)"
  using distinct_card [OF distinct_unique, of xs] by (simp add: set_unique)

lemma length_unique_le: "length (unique xs) \<le> length xs"
  by (simp add: length_unique card_length)

lemma mset_sort_values_desc: "mset (sort_values_desc s) = mset s"
  by (simp add: sort_values_desc_def)

lemma set_sort_values_desc: "set (sort_values_desc s) = set s"
  by (simp add: sort_values_desc_def)

lemma length_sort_values_desc: "length (sort_values_desc s) = length s"
  by (simp add: sort_values_desc_def)

lemma sorted_desc_map_neg:
  "sorted (map (\<lambda>x. - f x) xs) \<Longrightarrow> sorted_wrt (\<lambda>a b. (f b :: int) \<le> f a) xs"
  by (induction xs) auto

lemma sorted_sort_values_desc: "sorted_wrt (\<lambda>a b. snd b \<le> snd a) (sort_values_desc s)"
proof -
  have "sorted (map (\<lambda>kc. - int (snd kc)) (sort_values_desc s))"
    unfolding sort_values_desc_def by (rule sorted_sort_key)
  then have "sorted_wrt (\<lambda>a b. int (snd b) \<le> int (snd a)) (sort_values_desc s)"
    by (rule sorted_desc_map_neg)
  then show ?thesis by simp
qed

lemma distinct_fst_sort_values_desc:
  "distinct (map fst s) \<Longrightarrow> distinct (map fst (sort_values_desc s))"
proof -
  assume d: "distinct (map fst s)"
  have "mset (map fst (sort_values_desc s)) = mset (map fst s)"
    by (simp add: mset_sort_values_desc)
  then show ?thesis using d by (metis distinct_count_atmost_1 set_mset_mset)
qed

lemma sum_snd_sort_values_desc: "sum_list (map snd (sort_values_desc s)) = sum_list (map snd s)"
proof -
  have "mset (map snd (sort_values_desc s)) = mset (map snd s)"
    by (simp add: mset_sort_values_desc)
  then show ?thesis by (metis sum_mset_sum_list)
qed

lemma set_value_counts:
  "set (value_counts s) = {(k, c). Some k \<in> set s \<and> c = count_list s (Some k)}"
  by (auto simp: value_counts_def Let_def set_sort_values_desc set_unique set_notna count_list_notna)

lemma sorted_value_counts: "sorted_wrt (\<lambda>a b. snd b \<le> snd a) (value_counts s)"
  by (simp add: value_counts_def Let_def sorted_sort_values_desc)

lemma distinct_fst_value_counts: "distinct (map fst (value_counts s))"
  unfolding value_counts_def Let_def
  by (rule distinct_fst_sort_values_desc) (simp add: comp_def distinct_unique)

lemma length_value_counts: "length (value_counts s) = card {k. Some k \<in> set s}"
  by (simp add: value_counts_def Let_def length_sort_values_desc length_unique set_notna)

lemma sum_value_counts: "sum_list (map snd (value_counts s)) = length (notna s)"
proof -
  let ?vs = "notna s"
  have "sum_list (map snd (value_counts s)) = sum_list (map (count_list ?vs) (unique ?vs))"
    by (simp add: value_counts_def Let_def sum_snd_sort_values_desc comp_def)
  also have "\<dots> = sum (count_list ?vs) (set (unique ?vs))"
    by (rule sum_list_distinct_conv_sum_set) (rule distinct_unique)
  also have "\<dots> = length ?vs"
    by (rule sum_count_set) (simp_all add: set_unique)
  finally show ?thesis .
qed

lemma value_counts_notna_cong: "notna s = notna t \<Longrightarrow> value_counts s = value_counts t"
  by (simp add: value_counts_def)

lemma with_total_goals_fields:
  "HomeTeamGoals (with_total_goals add r) = HomeTeamGoals r"
  "AwayTeamGoals (with_total_goals add r) = AwayTeamGoals r"
  "Stage (with_total_goals add r) = Stage r"
  "MatchYear (with_total_goals add r) = MatchYear r"
  "HomeTeamName (with_total_goals add r) = HomeTeamName r"
  "AwayTeamName (with_total_goals add r) = AwayTeamName r"
  "TotalGoals (with_total_goals add r) = series_add add (HomeTeamGoals r) (AwayTeamGoals r)"
  by (simp_all add: with_total_goals_def match.defs)

lemma truncate_with_total_goals: "match.truncate (with_total_goals add r) = r"
  by (simp add: with_total_goals_def match.defs)

lemma count_list_map: "count_list (map f xs) v = length (filter (\<lambda>r. f r = v) xs)"
  by (induction xs) auto

lemma head_value_counts_entry:
  "(k, c) \<in> set (head n (value_counts s)) \<Longrightarrow> c = count_list s (Some k) \<and> 0 < c"
proof -
  assume "(k, c) \<in> set (head n (value_counts s))"
  then have "(k, c) \<in> set (value_counts s)"
    unfolding head_def by (rule in_set_takeD)
  then have "Some k \<in> set s \<and> c = count_list s (Some k)"
    by (simp add: set_value_counts)
  then show ?thesis using count_list_0_iff [of s "Some k"] by auto
qed

lemma head_value_counts_sorted:
  "sorted_wrt (\<lambda>a b. snd b \<le> snd a) (head n (value_counts s))"
  unfolding head_def by (rule sorted_wrt_take) (rule sorted_value_counts)

lemma head_value_counts_distinct: "distinct (map fst (head n (value_counts s)))"
  unfolding head_def take_map [symmetric] by (rule distinct_take) (rule distinct_fst_value_counts)

lemma head_value_counts_length:
  "length (head n (value_counts s)) = min n (card {k. Some k \<in> set s})"
  by (simp add: head_def length_value_counts min.commute)

lemma head_sorted_top:
  assumes "sorted_wrt (\<lambda>a b. snd b \<le> (snd a :: nat)) xs"
    and "x \<in> set (head n xs)" and "y \<in> set xs" and "y \<notin> set (head n xs)"
  shows "snd y \<le> snd x"
proof -
  have "xs = take n xs @ drop n xs" by simp
  then have "sorted_wrt (\<lambda>a b. snd b \<le> snd a) (take n xs @ drop n xs)"
    using assms(1) by simp
  then have *: "\<forall>a\<in>set (take n xs). \<forall>b\<in>set (drop n xs). snd b \<le> snd a"
    unfolding sorted_wrt_append by blast
  have "y \<in> set (take n xs) \<union> set (drop n xs)"
    using assms(3) by (metis append_take_drop_id set_append)
  then have "y \<in> set (drop n xs)" using assms(4) by (simp add: head_def)
  then show ?thesis using * assms(2) by (simp add: head_def)
qed

lemma head_value_counts_top:
  assumes "(k, c) \<in> set (head n (value_counts s))"
    and "k' \<notin> fst ` set (head n (value_counts s))"
  shows "count_list s (Some k') \<le> c"
proof (cases "Some k' \<in> set s")
  case False
  then have "count_list s (Some k') = 0" using count_list_0_iff [of s "Some k'"] by simp
  then show ?thesis by simp
next
  case True
  then have in_vc: "(k', count_list s (Some k')) \<in> set (value_counts s)"
    by (simp add: set_value_counts)
  have "(k', count_list s (Some k')) \<notin> set (head n (value_counts s))"
    using assms(2) by force
  from head_sorted_top [OF sorted_value_counts assms(1) in_vc this]
  show ?thesis by simp
qed

section \<open>Facts about machine numbers and sorting\<close>

lemma int64_exact: "- (2 ^ 63) \<le> x \<Longrightarrow> x < 2 ^ 63 \<Longrightarrow> int64 x = x"
  by (simp add: int64_def)

lemma exact_add_int64: "exact_add int64_add"
  unfolding exact_add_def int64_add_def
proof (intro allI impI)
  fix x y :: int
  assume "\<bar>x\<bar> + \<bar>y\<bar> \<le> 2 ^ 53"
  then have "- (2 ^ 63) \<le> x + y" "x + y < 2 ^ 63" by simp_all
  then show "int64 (x + y) = x + y" by (rule int64_exact)
qed

lemma exact_sum_int64: "exact_sum int64_sum"
  unfolding exact_sum_def int64_sum_def
proof (intro allI impI)
  fix xs :: "int list"
  assume "sum_list (map abs xs) \<le> 2 ^ 53"
  moreover have "\<bar>sum_list xs\<bar> \<le> sum_list (map abs xs)" by (rule sum_list_abs)
  ultimately have "- (2 ^ 63) \<le> sum_list xs" "sum_list xs < 2 ^ 63" by simp_all
  then show "int64 (sum_list xs) = sum_list xs" by (rule int64_exact)
qed

lemma sorts_desc_mergesort: "sorts_desc mergesort_desc"
  unfolding sorts_desc_def mergesort_desc_def
proof (intro allI conjI)
  fix key :: "'a \<Rightarrow> int" and df :: "'a list"
  show "mset (sort_key (\<lambda>r. - key r) df) = mset df" by simp
  have "sorted (map (\<lambda>r. - key r) (sort_key (\<lambda>r. - key r) df))" by (rule sorted_sort_key)
  then show "sorted_wrt (\<lambda>a b. key b \<le> key a) (sort_key (\<lambda>r. - key r) df)"
    by (rule sorted_desc_map_neg)
qed

lemma sorts_desc_reversed: "sorts_desc reversed_sort_desc"
  unfolding sorts_desc_def reversed_sort_desc_def
proof (intro allI conjI)
  fix key :: "'a \<Rightarrow> int" and df :: "'a list"
  show "mset (rev (sort_key key df)) = mset df" by simp
  have "sorted (map key (sort_key key df))" by (rule sorted_sort_key)
  then have "sorted_wrt (\<lambda>a b. key a \<le> key b) (sort_key key df)"
    by (simp add: sorted_map)
  then show "sorted_wrt (\<lambda>a b. key b \<le> key a) (rev (sort_key key df))"
    by (simp add: sorted_wrt_rev)
qed

section \<open>Match Statistics: the claims\<close>

lemma notna_home_clean:
  "notna (map HomeTeamGoals (matches_clean add ms)) =
   map (\<lambda>r. the (HomeTeamGoals r))
       (filter (\<lambda>r. HomeTeamGoals r \<noteq> None \<and> AwayTeamGoals r \<noteq> None) ms)"
  by (induction ms) (auto simp: matches_clean_def dropna_goals_def with_total_goals_fields)

lemma notna_away_clean:
  "notna (map AwayTeamGoals (matches_clean add ms)) =
   map (\<lambda>r. the (AwayTeamGoals r))
       (filter (\<lambda>r. HomeTeamGoals r \<noteq> None \<and> AwayTeamGoals r \<noteq> None) ms)"
  by (induction ms) (auto simp: matches_clean_def dropna_goals_def with_total_goals_fields)

lemma total_goals_column_clean:
  "total_goals_column (matches_clean add ms) =
   map (\<lambda>r. Some (add (the (HomeTeamGoals r)) (the (AwayTeamGoals r))))
       (filter (\<lambda>r. HomeTeamGoals r \<noteq> None \<and> AwayTeamGoals r \<noteq> None) ms)"
  by (induction ms)
     (auto simp: matches_clean_def dropna_goals_def total_goals_column_def with_total_goals_fields)

lemma notna_map_Some: "notna (map (\<lambda>r. Some (f r)) xs) = map f xs"
  by (induction xs) auto

lemma sum_list_abs_parts:
  "sum_list (map (\<lambda>r. \<bar>f r\<bar>) xs) \<le> sum_list (map (\<lambda>r. \<bar>f r :: int\<bar> + \<bar>g r\<bar>) xs)"
  "sum_list (map (\<lambda>r. \<bar>g r\<bar>) xs) \<le> sum_list (map (\<lambda>r. \<bar>f r :: int\<bar> + \<bar>g r\<bar>) xs)"
  by (induction xs) auto

lemma row_le_sum_list:
  "r \<in> set xs \<Longrightarrow> \<bar>f r :: int\<bar> + \<bar>g r\<bar> \<le> sum_list (map (\<lambda>r. \<bar>f r\<bar> + \<bar>g r\<bar>) xs)"
proof (induction xs)
  case Nil
  then show ?case by simp
next
  case (Cons x xs)
  have "0 \<le> sum_list (map (\<lambda>r. \<bar>f r\<bar> + \<bar>g r\<bar>) xs)"
    by (rule sum_list_nonneg) auto
  with Cons show ?case by auto
qed

text \<open>
  Claim C4, as the code has it. The home total and the away total of the pie chart
  (lines 208-209) are machine sums over \<open>matches_clean\<close>. For every Match table
  whose goal counts, over the rows that have both, add up to at most \<open>2^53\<close> in
  absolute value, and for every machine arithmetic that is exact in that range (as
  int64 and float64 are), the home total plus the away total is the sum of home
  goals + away goals over the rows that have both goal counts, which is also the sum
  of the column Total Goals.
\<close>

theorem home_away_goal_totals:
  assumes "exact_sum sum_h" and "exact_sum sum_a" and "exact_add add"
    and "sum_list (map (\<lambda>r. \<bar>the (HomeTeamGoals r)\<bar> + \<bar>the (AwayTeamGoals r)\<bar>)
           (filter (\<lambda>r. HomeTeamGoals r \<noteq> None \<and> AwayTeamGoals r \<noteq> None) ms)) \<le> 2 ^ 53"
  shows "home_goals sum_h (matches_clean add ms) + away_goals sum_a (matches_clean add ms) =
     sum_list (map (\<lambda>r. the (HomeTeamGoals r) + the (AwayTeamGoals r))
                   (filter (\<lambda>r. HomeTeamGoals r \<noteq> None \<and> AwayTeamGoals r \<noteq> None) ms))
   \<and> home_goals sum_h (matches_clean add ms) + away_goals sum_a (matches_clean add ms) =
     sum_list (notna (total_goals_column (matches_clean add ms)))"
proof -
  let ?both = "filter (\<lambda>r. HomeTeamGoals r \<noteq> None \<and> AwayTeamGoals r \<noteq> None) ms"
  let ?h = "\<lambda>r. the (HomeTeamGoals r)" and ?a = "\<lambda>r. the (AwayTeamGoals r)"
  note bound = assms(4)
  have "sum_list (map abs (map ?h ?both)) \<le> 2 ^ 53"
    using sum_list_abs_parts(1) [of ?h ?both ?a] bound by (simp add: comp_def)
  then have home: "home_goals sum_h (matches_clean add ms) = sum_list (map ?h ?both)"
    using assms(1) by (simp add: home_goals_def series_sum_def notna_home_clean exact_sum_def)
  have "sum_list (map abs (map ?a ?both)) \<le> 2 ^ 53"
    using sum_list_abs_parts(2) [of ?a ?both ?h] bound by (simp add: comp_def)
  then have away: "away_goals sum_a (matches_clean add ms) = sum_list (map ?a ?both)"
    using assms(2) by (simp add: away_goals_def series_sum_def notna_away_clean exact_sum_def)
  have rows: "add (?h r) (?a r) = ?h r + ?a r" if "r \<in> set ?both" for r
  proof -
    have "\<bar>?h r\<bar> + \<bar>?a r\<bar> \<le> 2 ^ 53"
      using row_le_sum_list [OF that, of ?h ?a] bound by linarith
    then show ?thesis using assms(3) by (simp add: exact_add_def)
  qed
  have totals: "notna (total_goals_column (matches_clean add ms)) = map (\<lambda>r. ?h r + ?a r) ?both"
    unfolding total_goals_column_clean notna_map_Some
    by (rule map_cong) (simp_all add: rows)
  have sum: "sum_list (map ?h ?both) + sum_list (map ?a ?both)
      = sum_list (map (\<lambda>r. ?h r + ?a r) ?both)"
    by (simp add: sum_list_addf)
  show ?thesis unfolding home away totals using sum by simp
qed

text \<open>
  The claim as stated, for every Match table, fails: in a table of one match with
  \<open>2^62\<close> goals on either side and no missing value (int64 columns), the home total
  and the away total add up to \<open>2^63\<close>, while the Total Goals of the match is
  \<open>-2^63\<close>, the addition of line 190 having wrapped around.
\<close>

theorem home_away_goal_totals_counterexample:
  "home_goals int64_sum (matches_clean int64_add
      [sample_match (Some ''Final'') (Some (2 ^ 62)) (Some (2 ^ 62))])
   + away_goals int64_sum (matches_clean int64_add
      [sample_match (Some ''Final'') (Some (2 ^ 62)) (Some (2 ^ 62))]) = 2 ^ 63
   \<and> total_goals_column (matches_clean int64_add
      [sample_match (Some ''Final'') (Some (2 ^ 62)) (Some (2 ^ 62))]) = [Some (- (2 ^ 63))]"
  by (simp add: home_goals_def away_goals_def series_sum_def matches_clean_def dropna_goals_def
      total_goals_column_def with_total_goals_fields int64_sum_def int64_add_def int64_def)

theorem home_away_goal_totals_witness:
  "exact_sum int64_sum \<and> exact_add int64_add
   \<and> home_goals int64_sum (matches_clean int64_add
        [sample_match (Some ''Final'') (Some 3) (Some 2),
         sample_match (Some ''Final'') None (Some 1),
         sample_match (Some ''Group 1'') (Some 1) (Some 0)])
     + away_goals int64_sum (matches_clean int64_add
        [sample_match (Some ''Final'') (Some 3) (Some 2),
         sample_match (Some ''Final'') None (Some 1),
         sample_match (Some ''Group 1'') (Some 1) (Some 0)]) = 6
   \<and> total_goals_column (matches_clean int64_add
        [sample_match (Some ''Final'') (Some 3) (Some 2),
         sample_match (Some ''Final'') None (Some 1),
         sample_match (Some ''Group 1'') (Some 1) (Some 0)]) = [Some 5, Some 1]"
proof -
  let ?ms = "[sample_match (Some ''Final'') (Some 3) (Some 2),
         sample_match (Some ''Final'') None (Some 1),
         sample_match (Some ''Group 1'') (Some 1) (Some 0)]"
  have bound: "sum_list (map (\<lambda>r. \<bar>the (HomeTeamGoals r)\<bar> + \<bar>the (AwayTeamGoals r)\<bar>)
           (filter (\<lambda>r. HomeTeamGoals r \<noteq> None \<and> AwayTeamGoals r \<noteq> None) ?ms)) \<le> 2 ^ 53"
    by simp
  have col: "total_goals_column (matches_clean int64_add ?ms) = [Some 5, Some 1]"
    by (simp add: matches_clean_def dropna_goals_def total_goals_column_def
        with_total_goals_fields int64_add_def int64_def)
  have "home_goals int64_sum (matches_clean int64_add ?ms)
      + away_goals int64_sum (matches_clean int64_add ?ms)
      = sum_list (notna (total_goals_column (matches_clean int64_add ?ms)))"
    using home_away_goal_totals [OF exact_sum_int64 exact_sum_int64 exact_add_int64 bound]
    by blast
  then show ?thesis using col exact_sum_int64 exact_add_int64 by simp
qed




lemma filter_take_prefix: "prefix (filter P (take n xs)) (filter P xs)"
proof -
  have "filter P xs = filter P (take n xs) @ filter P (drop n xs)"
    by (metis append_take_drop_id filter_append)
  then show ?thesis by (metis prefixI)
qed

lemma matches_clean_both:
  "list_all (\<lambda>r. HomeTeamGoals r \<noteq> None \<and> AwayTeamGoals r \<noteq> None) (matches_clean add ms)"
  by (auto simp: matches_clean_def dropna_goals_def with_total_goals_fields list_all_iff)

lemma matches_clean_truncate:
  "map match.truncate (matches_clean add ms) =
   filter (\<lambda>r. HomeTeamGoals r \<noteq> None \<and> AwayTeamGoals r \<noteq> None) ms"
  by (simp add: matches_clean_def dropna_goals_def comp_def truncate_with_total_goals)

lemma total_goals_clean:
  "r \<in> set (matches_clean add ms) \<Longrightarrow>
   TotalGoals r = Some (add (the (HomeTeamGoals r)) (the (AwayTeamGoals r)))
   \<and> HomeTeamGoals r \<noteq> None \<and> AwayTeamGoals r \<noteq> None"
  by (auto simp: matches_clean_def dropna_goals_def with_total_goals_fields)

lemma length_matches_clean:
  "length (matches_clean add ms) =
   length (filter (\<lambda>r. HomeTeamGoals r \<noteq> None \<and> AwayTeamGoals r \<noteq> None) ms)"
  by (simp add: matches_clean_def dropna_goals_def)

lemma sorts_desc_mset: "sorts_desc srt \<Longrightarrow> mset (srt key df) = mset df"
  by (simp add: sorts_desc_def)

lemma sorts_desc_sorted:
  "sorts_desc srt \<Longrightarrow> sorted_wrt (\<lambda>a b. key b \<le> key a) (srt key df)"
  by (simp add: sorts_desc_def)

text \<open>
  On a numeric column without NaN, \<open>nlargest\<close> returns the first n rows of a
  descending arrangement of the frame, which is the stable one when the frame has
  more than n rows.
\<close>

lemma nlargest_numeric:
  assumes "sorts_desc srt" and "\<forall>r \<in> set df. col r \<noteq> None"
  shows "\<exists>arranged. nlargest srt n col NumericDtype df = Inr (take n arranged)
           \<and> mset arranged = mset df
           \<and> sorted_wrt (\<lambda>a b. the (col b) \<le> the (col a)) arranged
           \<and> (n < length df \<longrightarrow> arranged = mergesort_desc (\<lambda>r. the (col r)) df)"
proof -
  have valid: "filter (\<lambda>r. col r \<noteq> None) df = df"
    by (rule filter_True) (use assms(2) in auto)
  have missing: "filter (\<lambda>r. col r = None) df = []"
    using assms(2) by (simp add: filter_empty_conv)
  have nl: "nlargest srt n col NumericDtype df =
      Inr (take n (if length df \<le> n then srt (\<lambda>r. the (col r)) df
                   else mergesort_desc (\<lambda>r. the (col r)) df))"
    unfolding nlargest_def Let_def valid missing by simp
  show ?thesis
  proof (cases "length df \<le> n")
    case True
    have "mset (srt (\<lambda>r. the (col r)) df) = mset df"
      and "sorted_wrt (\<lambda>a b. the (col b) \<le> the (col a)) (srt (\<lambda>r. the (col r)) df)"
      using sorts_desc_mset [OF assms(1)] sorts_desc_sorted [OF assms(1), of "\<lambda>r. the (col r)"]
      by simp_all
    then show ?thesis
      using True by (intro exI [of _ "srt (\<lambda>r. the (col r)) df"]) (simp add: nl)
  next
    case False
    have "mset (mergesort_desc (\<lambda>r. the (col r)) df) = mset df"
      and "sorted_wrt (\<lambda>a b. the (col b) \<le> the (col a)) (mergesort_desc (\<lambda>r. the (col r)) df)"
      using sorts_desc_mset [OF sorts_desc_mergesort]
        sorts_desc_sorted [OF sorts_desc_mergesort, of "\<lambda>r. the (col r)"]
      by simp_all
    then show ?thesis
      using False by (intro exI [of _ "mergesort_desc (\<lambda>r. the (col r)) df"])
        (simp add: nl)
  qed
qed

lemma mergesort_desc_ties:
  assumes "\<forall>r \<in> set df. col r \<noteq> None"
  shows "filter (\<lambda>r. col r = g) (mergesort_desc (\<lambda>r. the (col r)) df) = filter (\<lambda>r. col r = g) df"
proof (cases g)
  case None
  have "filter (\<lambda>r. col r = None) (mergesort_desc (\<lambda>r. the (col r)) df) = []"
    using assms by (simp add: filter_empty_conv mergesort_desc_def)
  moreover have "filter (\<lambda>r. col r = None) df = []"
    using assms by (simp add: filter_empty_conv)
  ultimately show ?thesis using None by simp
next
  case (Some v)
  let ?k = "\<lambda>r. - the (col r)"
  have eqk: "filter (\<lambda>r. col r = g) xs = filter (\<lambda>r. ?k r = - v) xs"
    if "\<forall>r\<in>set xs. col r \<noteq> None" for xs
    using that Some by (intro filter_cong) auto
  have s1: "\<forall>r\<in>set (sort_key ?k df). col r \<noteq> None" using assms by simp
  have "filter (\<lambda>r. col r = g) (sort_key ?k df) = filter (\<lambda>r. ?k r = - v) (sort_key ?k df)"
    by (rule eqk [OF s1])
  also have "\<dots> = filter (\<lambda>r. ?k r = - v) df"
    by (rule sort_key_stable)
  also have "\<dots> = filter (\<lambda>r. col r = g) df"
    by (rule eqk [symmetric]) (rule assms)
  finally show ?thesis by (simp add: mergesort_desc_def)
qed

lemma scoring_columns_total: "sTotalGoals (scoring_columns r) = TotalGoals r"
  by (simp add: scoring_columns_def)

lemma take_drop_sorted:
  assumes "sorted_wrt (\<lambda>a b. f b \<le> (f a :: int)) xs"
    and "x \<in> set (drop n xs)" and "y \<in> set (take n xs)"
  shows "f x \<le> f y"
proof -
  have "sorted_wrt (\<lambda>a b. f b \<le> f a) (take n xs @ drop n xs)" using assms(1) by simp
  then show ?thesis unfolding sorted_wrt_append using assms(2,3) by blast
qed

text \<open>
  Claim C2, as the code has it. For every Match table with at least one row and
  every default sort, the table of highest scoring matches (lines 187-192) exists and
  is computed from \<open>matches_clean\<close>, which holds exactly the rows that have both
  goal counts. It is ordered by non-increasing total. It has min(10, number of such
  rows) rows, each of them a row of \<open>matches_clean\<close> with both goal counts and their
  machine sum as total. No row left out has a larger total than a row shown. When
  more than 10 rows have both goal counts, the rows shown with a given total are the
  first ones with that total in the Match table, in table order.
\<close>

theorem highest_scoring_matches:
  assumes "sorts_desc srt" and "ms \<noteq> []"
  shows "\<exists>shown. highest_scoring srt (read_csv_goals_dtype ms) (matches_clean add ms) = Inr shown
     \<and> map match.truncate (matches_clean add ms) =
         filter (\<lambda>r. HomeTeamGoals r \<noteq> None \<and> AwayTeamGoals r \<noteq> None) ms
     \<and> sorted_wrt (\<lambda>a b. the (sTotalGoals b) \<le> the (sTotalGoals a)) shown
     \<and> length shown =
         min 10 (length (filter (\<lambda>r. HomeTeamGoals r \<noteq> None \<and> AwayTeamGoals r \<noteq> None) ms))
     \<and> mset shown \<subseteq># image_mset scoring_columns (mset (matches_clean add ms))
     \<and> (\<forall>x \<in># image_mset scoring_columns (mset (matches_clean add ms)) - mset shown.
          \<forall>y \<in> set shown. the (sTotalGoals x) \<le> the (sTotalGoals y))
     \<and> (\<forall>y \<in> set shown. sHomeTeamGoals y \<noteq> None \<and> sAwayTeamGoals y \<noteq> None
          \<and> sTotalGoals y = Some (add (the (sHomeTeamGoals y)) (the (sAwayTeamGoals y))))
     \<and> (10 < length (filter (\<lambda>r. HomeTeamGoals r \<noteq> None \<and> AwayTeamGoals r \<noteq> None) ms) \<longrightarrow>
          (\<forall>g. prefix (filter (\<lambda>x. sTotalGoals x = g) shown)
                 (map scoring_columns (filter (\<lambda>r. TotalGoals r = g) (matches_clean add ms)))))"
proof -
  let ?clean = "matches_clean add ms"
  let ?both = "filter (\<lambda>r. HomeTeamGoals r \<noteq> None \<and> AwayTeamGoals r \<noteq> None) ms"
  have present: "\<forall>r \<in> set ?clean. TotalGoals r \<noteq> None"
    using total_goals_clean by fastforce
  from nlargest_numeric [OF assms(1) present, of 10]
  obtain arranged where
    nl: "nlargest srt 10 TotalGoals NumericDtype ?clean = Inr (take 10 arranged)"
    and perm: "mset arranged = mset ?clean"
    and sorted: "sorted_wrt (\<lambda>a b. the (TotalGoals b) \<le> the (TotalGoals a)) arranged"
    and stable: "10 < length ?clean \<longrightarrow> arranged = mergesort_desc (\<lambda>r. the (TotalGoals r)) ?clean"
    by blast
  let ?shown = "map scoring_columns (take 10 arranged)"
  have res: "highest_scoring srt (read_csv_goals_dtype ms) ?clean = Inr ?shown"
    using assms(2) by (simp add: highest_scoring_def read_csv_goals_dtype_def nl)
  have len_arr: "length arranged = length ?clean"
    using perm by (metis size_mset)
  have a: "sorted_wrt (\<lambda>a b. the (sTotalGoals b) \<le> the (sTotalGoals a)) ?shown"
    unfolding sorted_wrt_map scoring_columns_total using sorted by (rule sorted_wrt_take)
  have b: "length ?shown = min 10 (length ?both)"
    by (simp add: len_arr length_matches_clean min.commute)
  have split: "mset ?clean = mset (take 10 arranged) + mset (drop 10 arranged)"
    unfolding perm [symmetric] by (metis append_take_drop_id mset_append)
  have c: "mset ?shown \<subseteq># image_mset scoring_columns (mset ?clean)"
    unfolding split by simp
  have rest: "image_mset scoring_columns (mset ?clean) - mset ?shown
      = mset (map scoring_columns (drop 10 arranged))"
    unfolding split by simp
  have d: "\<forall>x \<in># image_mset scoring_columns (mset ?clean) - mset ?shown.
          \<forall>y \<in> set ?shown. the (sTotalGoals x) \<le> the (sTotalGoals y)"
    unfolding rest using take_drop_sorted [OF sorted]
    by (auto simp: scoring_columns_total)
  have e: "\<forall>y \<in> set ?shown. sHomeTeamGoals y \<noteq> None \<and> sAwayTeamGoals y \<noteq> None
          \<and> sTotalGoals y = Some (add (the (sHomeTeamGoals y)) (the (sAwayTeamGoals y)))"
  proof
    fix y assume "y \<in> set ?shown"
    then obtain r where r: "r \<in> set (take 10 arranged)" and y: "y = scoring_columns r" by auto
    from r have "r \<in> set arranged" by (rule in_set_takeD)
    then have "r \<in> set ?clean" using perm by (metis set_mset_mset)
    from total_goals_clean [OF this] show "sHomeTeamGoals y \<noteq> None \<and> sAwayTeamGoals y \<noteq> None
          \<and> sTotalGoals y = Some (add (the (sHomeTeamGoals y)) (the (sAwayTeamGoals y)))"
      by (simp add: y scoring_columns_def)
  qed
  have f: "10 < length ?both \<longrightarrow>
          (\<forall>g. prefix (filter (\<lambda>x. sTotalGoals x = g) ?shown)
                 (map scoring_columns (filter (\<lambda>r. TotalGoals r = g) ?clean)))"
  proof (intro impI allI)
    fix g
    assume "10 < length ?both"
    then have arr: "arranged = mergesort_desc (\<lambda>r. the (TotalGoals r)) ?clean"
      using stable by (simp add: length_matches_clean)
    have "filter (\<lambda>r. TotalGoals r = g) arranged = filter (\<lambda>r. TotalGoals r = g) ?clean"
      unfolding arr by (rule mergesort_desc_ties [OF present])
    then have "prefix (filter (\<lambda>r. TotalGoals r = g) (take 10 arranged))
        (filter (\<lambda>r. TotalGoals r = g) ?clean)"
      using filter_take_prefix [of "\<lambda>r. TotalGoals r = g" 10 arranged] by simp
    moreover have "filter (\<lambda>x. sTotalGoals x = g) ?shown
        = map scoring_columns (filter (\<lambda>r. TotalGoals r = g) (take 10 arranged))"
      by (simp add: filter_map comp_def scoring_columns_total)
    ultimately show "prefix (filter (\<lambda>x. sTotalGoals x = g) ?shown)
                 (map scoring_columns (filter (\<lambda>r. TotalGoals r = g) ?clean))"
      by (simp add: map_mono_prefix)
  qed
  from res matches_clean_truncate a b c d e f show ?thesis by blast
qed

text \<open>
  The claim as stated fails in two ways. For a Match file without rows the column
  Total Goals has the object dtype and \<open>nlargest\<close> raises TypeError: there is no
  table of length 0. And with at most 10 rows the order of equal totals is that of
  the default sort of \<open>sort_values\<close>, which need not keep row order: with a sort that
  lists equal totals last row first, the matches 2-1 and 1-2 come back in the
  opposite of their row order.
\<close>

theorem highest_scoring_matches_counterexample:
  "highest_scoring mergesort_desc (read_csv_goals_dtype []) (matches_clean int64_add [])
     = Inl (TypeError ''nlargest'')
   \<and> sorts_desc (reversed_sort_desc :: (match_tg \<Rightarrow> int) \<Rightarrow> match_tg list \<Rightarrow> match_tg list)
   \<and> highest_scoring reversed_sort_desc
       (read_csv_goals_dtype
          [sample_match (Some ''Final'') (Some 2) (Some 1),
           sample_match (Some ''Final'') (Some 1) (Some 2)])
       (matches_clean int64_add
          [sample_match (Some ''Final'') (Some 2) (Some 1),
           sample_match (Some ''Final'') (Some 1) (Some 2)])
     = Inr [sample_scoring (Some 1) (Some 2) (Some 3),
            sample_scoring (Some 2) (Some 1) (Some 3)]"
  using sorts_desc_reversed [where ?'a = match_tg]
  by (simp add: highest_scoring_def nlargest_def read_csv_goals_dtype_def matches_clean_def
      dropna_goals_def with_total_goals_fields reversed_sort_desc_def scoring_columns_def
      int64_add_def int64_def)

theorem highest_scoring_matches_witness:
  "sorts_desc (mergesort_desc :: (match_tg \<Rightarrow> int) \<Rightarrow> match_tg list \<Rightarrow> match_tg list)
   \<and> highest_scoring mergesort_desc
       (read_csv_goals_dtype
          [sample_match (Some ''Group 1'') (Some 1) (Some 1),
           sample_match (Some ''Group 1'') (Some 2) (Some 0),
           sample_match (Some ''Group 1'') (Some 0) (Some 0),
           sample_match (Some ''Group 1'') (Some 0) (Some 2),
           sample_match (Some ''Group 1'') (Some 9) (Some 0),
           sample_match (Some ''Group 1'') (Some 0) (Some 0),
           sample_match (Some ''Group 1'') None (Some 4),
           sample_match (Some ''Group 1'') (Some 0) (Some 1),
           sample_match (Some ''Group 1'') (Some 1) (Some 0),
           sample_match (Some ''Group 1'') (Some 3) (Some 0),
           sample_match (Some ''Group 1'') (Some 0) (Some 3),
           sample_match (Some ''Group 1'') (Some 0) (Some 0)])
       (matches_clean int64_add
          [sample_match (Some ''Group 1'') (Some 1) (Some 1),
           sample_match (Some ''Group 1'') (Some 2) (Some 0),
           sample_match (Some ''Group 1'') (Some 0) (Some 0),
           sample_match (Some ''Group 1'') (Some 0) (Some 2),
           sample_match (Some ''Group 1'') (Some 9) (Some 0),
           sample_match (Some ''Group 1'') (Some 0) (Some 0),
           sample_match (Some ''Group 1'') None (Some 4),
           sample_match (Some ''Group 1'') (Some 0) (Some 1),
           sample_match (Some ''Group 1'') (Some 1) (Some 0),
           sample_match (Some ''Group 1'') (Some 3) (Some 0),
           sample_match (Some ''Group 1'') (Some 0) (Some 3),
           sample_match (Some ''Group 1'') (Some 0) (Some 0)])
     = Inr [sample_scoring (Some 9) (Some 0) (Some 9),
            sample_scoring (Some 3) (Some 0) (Some 3),
            sample_scoring (Some 0) (Some 3) (Some 3),
            sample_scoring (Some 1) (Some 1) (Some 2),
            sample_scoring (Some 2) (Some 0) (Some 2),
            sample_scoring (Some 0) (Some 2) (Some 2),
            sample_scoring (Some 0) (Some 1) (Some 1),
            sample_scoring (Some 1) (Some 0) (Some 1),
            sample_scoring (Some 0) (Some 0) (Some 0),
            sample_scoring (Some 0) (Some 0) (Some 0)]"
proof -
  let ?ms = "[sample_match (Some ''Group 1'') (Some 1) (Some 1),
           sample_match (Some ''Group 1'') (Some 2) (Some 0),
           sample_match (Some ''Group 1'') (Some 0) (Some 0),
           sample_match (Some ''Group 1'') (Some 0) (Some 2),
           sample_match (Some ''Group 1'') (Some 9) (Some 0),
           sample_match (Some ''Group 1'') (Some 0) (Some 0),
           sample_match (Some ''Group 1'') None (Some 4),
           sample_match (Some ''Group 1'') (Some 0) (Some 1),
           sample_match (Some ''Group 1'') (Some 1) (Some 0),
           sample_match (Some ''Group 1'') (Some 3) (Some 0),
           sample_match (Some ''Group 1'') (Some 0) (Some 3),
           sample_match (Some ''Group 1'') (Some 0) (Some 0)]"
  have nonempty: "?ms \<noteq> []" by simp
  have srt: "sorts_desc (mergesort_desc :: (match_tg \<Rightarrow> int) \<Rightarrow> match_tg list \<Rightarrow> match_tg list)"
    by (rule sorts_desc_mergesort)
  from highest_scoring_matches [OF srt nonempty, of int64_add]
  obtain shown where
    "highest_scoring mergesort_desc (read_csv_goals_dtype ?ms) (matches_clean int64_add ?ms)
       = Inr shown"
    and "length shown =
      min 10 (length (filter (\<lambda>r. HomeTeamGoals r \<noteq> None \<and> AwayTeamGoals r \<noteq> None) ?ms))"
    by blast
  have run: "highest_scoring mergesort_desc (read_csv_goals_dtype ?ms)
      (matches_clean int64_add ?ms)
     = Inr [sample_scoring (Some 9) (Some 0) (Some 9),
            sample_scoring (Some 3) (Some 0) (Some 3),
            sample_scoring (Some 0) (Some 3) (Some 3),
            sample_scoring (Some 1) (Some 1) (Some 2),
            sample_scoring (Some 2) (Some 0) (Some 2),
            sample_scoring (Some 0) (Some 2) (Some 2),
            sample_scoring (Some 0) (Some 1) (Some 1),
            sample_scoring (Some 1) (Some 0) (Some 1),
            sample_scoring (Some 0) (Some 0) (Some 0),
            sample_scoring (Some 0) (Some 0) (Some 0)]"
    by (simp add: highest_scoring_def nlargest_def read_csv_goals_dtype_def matches_clean_def
      dropna_goals_def with_total_goals_fields mergesort_desc_def scoring_columns_def
      int64_add_def int64_def)
  with srt show ?thesis by simp
qed

lemma stage_count_clean:
  "count_list (map Stage (matches_clean add ms)) (Some s) =
   length (filter (\<lambda>r. Stage r = Some s \<and> HomeTeamGoals r \<noteq> None \<and> AwayTeamGoals r \<noteq> None) ms)"
  by (simp add: count_list_map matches_clean_def dropna_goals_def filter_map comp_def
      with_total_goals_fields conj_commute)

lemma stages_clean:
  "{s. Some s \<in> set (map Stage (matches_clean add ms))} =
   {s. \<exists>r. r \<in> set ms \<and> Stage r = Some s \<and> HomeTeamGoals r \<noteq> None \<and> AwayTeamGoals r \<noteq> None}"
  by (auto simp: matches_clean_def dropna_goals_def with_total_goals_fields image_iff)

lemma matches_clean_drop_row:
  "HomeTeamGoals r = None \<or> AwayTeamGoals r = None \<Longrightarrow>
   matches_clean add (xs @ r # ys) = matches_clean add (xs @ ys)"
  by (auto simp: matches_clean_def dropna_goals_def)

text \<open>
  Claim C1, as the code has it. The stage chart (line 219) is computed from
  \<open>matches_clean\<close>, not from the whole Match table: each stage shown has the number
  of its rows that have both goal counts, the stages are ordered by descending count,
  no stage appears twice, there are min(10, number of stages with such a row) of
  them, and no stage left out has more such rows than a stage shown. A row with a
  missing goal count is not counted: removing it from the table leaves the chart
  unchanged.
\<close>

theorem matches_by_stage_clean:
  "(\<forall>(s, c) \<in> set (stage_counts (matches_clean add ms)).
      0 < c \<and>
      c = length (filter (\<lambda>r. Stage r = Some s \<and> HomeTeamGoals r \<noteq> None
                               \<and> AwayTeamGoals r \<noteq> None) ms) \<and>
      (\<forall>s'. s' \<notin> fst ` set (stage_counts (matches_clean add ms)) \<longrightarrow>
         length (filter (\<lambda>r. Stage r = Some s' \<and> HomeTeamGoals r \<noteq> None
                               \<and> AwayTeamGoals r \<noteq> None) ms) \<le> c))
   \<and> sorted_wrt (\<lambda>a b. snd b \<le> snd a) (stage_counts (matches_clean add ms))
   \<and> distinct (map fst (stage_counts (matches_clean add ms)))
   \<and> length (stage_counts (matches_clean add ms)) =
       min 10 (card {s. \<exists>r. r \<in> set ms \<and> Stage r = Some s \<and> HomeTeamGoals r \<noteq> None
                             \<and> AwayTeamGoals r \<noteq> None})
   \<and> (HomeTeamGoals r = None \<or> AwayTeamGoals r = None \<longrightarrow>
        stage_counts (matches_clean add (xs @ r # ys)) = stage_counts (matches_clean add (xs @ ys)))"
proof -
  let ?col = "map Stage (matches_clean add ms)"
  have res: "stage_counts (matches_clean add ms) = head 10 (value_counts ?col)"
    by (simp add: stage_counts_def)
  have a: "\<forall>(s, c) \<in> set (stage_counts (matches_clean add ms)).
      0 < c \<and>
      c = length (filter (\<lambda>r. Stage r = Some s \<and> HomeTeamGoals r \<noteq> None
                               \<and> AwayTeamGoals r \<noteq> None) ms) \<and>
      (\<forall>s'. s' \<notin> fst ` set (stage_counts (matches_clean add ms)) \<longrightarrow>
         length (filter (\<lambda>r. Stage r = Some s' \<and> HomeTeamGoals r \<noteq> None
                               \<and> AwayTeamGoals r \<noteq> None) ms) \<le> c)"
  proof (intro ballI, clarify, intro conjI allI impI)
    fix s c
    assume in_res: "(s, c) \<in> set (stage_counts (matches_clean add ms))"
    have entry: "c = count_list ?col (Some s) \<and> 0 < c"
      by (rule head_value_counts_entry [OF in_res [unfolded res]])
    show "0 < c" using entry by simp
    show "c = length (filter (\<lambda>r. Stage r = Some s \<and> HomeTeamGoals r \<noteq> None
                               \<and> AwayTeamGoals r \<noteq> None) ms)"
      using entry unfolding stage_count_clean by simp
    fix s'
    assume "s' \<notin> fst ` set (stage_counts (matches_clean add ms))"
    from head_value_counts_top [OF in_res [unfolded res] this [unfolded res]]
    show "length (filter (\<lambda>r. Stage r = Some s' \<and> HomeTeamGoals r \<noteq> None
                               \<and> AwayTeamGoals r \<noteq> None) ms) \<le> c"
      by (simp only: stage_count_clean)
  qed
  have b: "sorted_wrt (\<lambda>a b. snd b \<le> snd a) (stage_counts (matches_clean add ms))"
    unfolding res by (rule head_value_counts_sorted)
  have c: "distinct (map fst (stage_counts (matches_clean add ms)))"
    unfolding res by (rule head_value_counts_distinct)
  have d: "length (stage_counts (matches_clean add ms)) =
       min 10 (card {s. \<exists>r. r \<in> set ms \<and> Stage r = Some s \<and> HomeTeamGoals r \<noteq> None
                             \<and> AwayTeamGoals r \<noteq> None})"
    unfolding res head_value_counts_length stages_clean ..
  have e: "HomeTeamGoals r = None \<or> AwayTeamGoals r = None \<longrightarrow>
        stage_counts (matches_clean add (xs @ r # ys)) = stage_counts (matches_clean add (xs @ ys))"
    using matches_clean_drop_row by metis
  from a b c d e show ?thesis by blast
qed

text \<open>
  The claim as stated fails: a table whose only row is a Final with a missing home
  goal count gives an empty stage chart, while counting over the whole table gives
  one Final.
\<close>

theorem matches_by_stage_counterexample:
  "stage_counts (matches_clean int64_add [sample_match (Some ''Final'') None (Some 1)]) = []
   \<and> head 10 (value_counts (map Stage [sample_match (Some ''Final'') None (Some 1)]))
       = [(''Final'', 1)]"
  by (simp add: stage_counts_def matches_clean_def dropna_goals_def head_def value_counts_def
      sort_values_desc_def)

theorem matches_by_stage_clean_witness:
  "HomeTeamGoals (sample_match (Some ''Final'') None (Some 1)) = None
   \<and> stage_counts (matches_clean int64_add
      [sample_match (Some ''Final'') (Some 4) (Some 2),
       sample_match (Some ''Final'') None (Some 1),
       sample_match (Some ''Group 1'') (Some 1) (Some 0),
       sample_match (Some ''Final'') (Some 0) (Some 0)])
     = [(''Final'', 2), (''Group 1'', 1)]
   \<and> stage_counts (matches_clean int64_add
      [sample_match (Some ''Final'') (Some 4) (Some 2),
       sample_match (Some ''Group 1'') (Some 1) (Some 0),
       sample_match (Some ''Final'') (Some 0) (Some 0)])
     = [(''Final'', 2), (''Group 1'', 1)]"
proof -
  let ?r = "sample_match (Some ''Final'') None (Some 1)"
  let ?xs = "[sample_match (Some ''Final'') (Some 4) (Some 2)]"
  let ?ys = "[sample_match (Some ''Group 1'') (Some 1) (Some 0),
       sample_match (Some ''Final'') (Some 0) (Some 0)]"
  have null: "HomeTeamGoals ?r = None" by simp
  have run: "stage_counts (matches_clean int64_add (?xs @ ?ys)) = [(''Final'', 2), (''Group 1'', 1)]"
    by (simp add: stage_counts_def matches_clean_def dropna_goals_def head_def value_counts_def
        sort_values_desc_def with_total_goals_fields)
  have "stage_counts (matches_clean int64_add (?xs @ ?r # ?ys)) = stage_counts (matches_clean int64_add (?xs @ ?ys))"
    using matches_by_stage_clean [of int64_add "?xs @ ?r # ?ys" ?r ?xs ?ys] null by blast
  then show ?thesis using null run by simp
qed

lemma length_notna: "length (notna s) = length (filter (\<lambda>x. x \<noteq> None) s)"
  by (simp add: notna_conv)

section \<open>Player Analysis: the claims\<close>





section \<open>World Cup Winners: the claims\<close>

text \<open>
  Claim C5. For every Tournament table in which every row has a winner, the win
  counts of line 126 add up to the number of tournaments, the figure that line 87
  shows as \<open>len(world_cups)\<close>.
\<close>

theorem win_counts_sum:
  "(\<forall>r \<in> set world_cups. Winner r \<noteq> None) \<Longrightarrow>
   sum_list (map snd (winner_counts world_cups)) = length world_cups"
proof -
  assume all: "\<forall>r \<in> set world_cups. Winner r \<noteq> None"
  have "sum_list (map snd (winner_counts world_cups)) = length (notna (map Winner world_cups))"
    by (simp add: winner_counts_def sum_value_counts)
  also have "\<dots> = length (filter (\<lambda>x. x \<noteq> None) (map Winner world_cups))"
    by (rule length_notna)
  also have "filter (\<lambda>x. x \<noteq> None) (map Winner world_cups) = map Winner world_cups"
    by (rule filter_True) (use all in auto)
  finally show ?thesis by simp
qed

theorem win_counts_sum_witness:
  "winner_counts
     [sample_cup 1930 (Some ''Uruguay'') (StrV ''590.549''),
      sample_cup 1934 (Some ''Italy'') (StrV ''363.000''),
      sample_cup 1938 (Some ''Italy'') (StrV ''375.700'')]
     = [(''Italy'', 2), (''Uruguay'', 1)]
   \<and> sum_list (map snd (winner_counts
     [sample_cup 1930 (Some ''Uruguay'') (StrV ''590.549''),
      sample_cup 1934 (Some ''Italy'') (StrV ''363.000''),
      sample_cup 1938 (Some ''Italy'') (StrV ''375.700'')])) = 3"
proof -
  let ?wc = "[sample_cup 1930 (Some ''Uruguay'') (StrV ''590.549''),
      sample_cup 1934 (Some ''Italy'') (StrV ''363.000''),
      sample_cup 1938 (Some ''Italy'') (StrV ''375.700'')]"
  have "\<forall>r \<in> set ?wc. Winner r \<noteq> None" by simp
  from win_counts_sum [OF this]
  have sum: "sum_list (map snd (winner_counts ?wc)) = 3" by simp
  have "winner_counts ?wc = [(''Italy'', 2), (''Uruguay'', 1)]"
    by (simp add: winner_counts_def value_counts_def sort_values_desc_def)
  then show ?thesis using sum by simp
qed

section \<open>Player Analysis: players per team\<close>

lemma set_groupby_keys:
  "set (sort (unique (notna (map key df)))) = {k. \<exists>r. r \<in> set df \<and> key r = Some k}"
  by (auto simp: set_unique set_notna image_iff) (metis)

lemma groupby_nunique_count:
  "length (unique (notna (map val (filter (\<lambda>r. key r = Some k) df)))) =
   card {v. \<exists>r. r \<in> set df \<and> key r = Some k \<and> val r = Some v}"
proof -
  have "set (notna (map val (filter (\<lambda>r. key r = Some k) df))) =
        {v. \<exists>r. r \<in> set df \<and> key r = Some k \<and> val r = Some v}"
    by (auto simp: set_notna image_iff)
  then show ?thesis by (simp add: length_unique)
qed

lemma groupby_nunique_le:
  "length (unique (notna (map val (filter (\<lambda>r. key r = Some k) df)))) \<le>
   length (filter (\<lambda>r. key r = Some k) df)"
proof -
  have "length (unique (notna (map val (filter (\<lambda>r. key r = Some k) df))))
        \<le> length (notna (map val (filter (\<lambda>r. key r = Some k) df)))"
    by (rule length_unique_le)
  also have "\<dots> \<le> length (map val (filter (\<lambda>r. key r = Some k) df))"
    unfolding length_notna by (rule length_filter_le)
  finally show ?thesis by simp
qed

lemma set_groupby_nunique:
  "set (groupby_nunique key val df) =
   {(k, c). (\<exists>r. r \<in> set df \<and> key r = Some k) \<and>
            c = card {v. \<exists>r. r \<in> set df \<and> key r = Some k \<and> val r = Some v}}"
  unfolding groupby_nunique_def set_map set_groupby_keys groupby_nunique_count
  by auto

lemma distinct_fst_groupby_nunique: "distinct (map fst (groupby_nunique key val df))"
  by (simp add: groupby_nunique_def comp_def distinct_unique)

lemma length_groupby_nunique:
  "length (groupby_nunique key val df) = card {k. \<exists>r. r \<in> set df \<and> key r = Some k}"
proof -
  have "length (groupby_nunique key val df) = length (unique (notna (map key df)))"
    by (simp add: groupby_nunique_def)
  also have "\<dots> = card (set (sort (unique (notna (map key df)))))"
    by (simp add: length_unique set_unique)
  finally show ?thesis unfolding set_groupby_keys .
qed

lemma team_players_entry:
  assumes "(t, c) \<in> set (team_players (players_clean ps))"
  shows "c = card {n. \<exists>r. r \<in> set ps \<and> TeamInitials r = Some t \<and> PlayerName r = Some n}"
    and "c \<le> length (filter (\<lambda>r. TeamInitials r = Some t) ps)"
proof -
  let ?clean = "players_clean ps"
  have "(t, c) \<in> set (groupby_nunique TeamInitials PlayerName ?clean)"
    using assms unfolding team_players_def head_def
    by (metis in_set_takeD set_sort_values_desc)
  then have c: "c = card {n. \<exists>r. r \<in> set ?clean \<and> TeamInitials r = Some t \<and> PlayerName r = Some n}"
    by (simp add: set_groupby_nunique)
  have "{n. \<exists>r. r \<in> set ?clean \<and> TeamInitials r = Some t \<and> PlayerName r = Some n}
        = {n. \<exists>r. r \<in> set ps \<and> TeamInitials r = Some t \<and> PlayerName r = Some n}"
    by (auto simp: players_clean_def)
  with c show "c = card {n. \<exists>r. r \<in> set ps \<and> TeamInitials r = Some t \<and> PlayerName r = Some n}"
    by simp
  have "c = length (unique (notna (map PlayerName (filter (\<lambda>r. TeamInitials r = Some t) ?clean))))"
    using c by (simp add: groupby_nunique_count)
  also have "\<dots> \<le> length (filter (\<lambda>r. TeamInitials r = Some t) ?clean)"
    by (rule groupby_nunique_le)
  also have "\<dots> \<le> length (filter (\<lambda>r. TeamInitials r = Some t) ps)"
    by (simp add: players_clean_def conj_commute)
       (metis (no_types) filter_filter length_filter_le)
  finally show "c \<le> length (filter (\<lambda>r. TeamInitials r = Some t) ps)" .
qed

lemma team_players_sorted:
  "sorted_wrt (\<lambda>a b. snd b \<le> snd a) (team_players clean)"
  unfolding team_players_def head_def by (rule sorted_wrt_take) (rule sorted_sort_values_desc)

lemma team_players_distinct: "distinct (map fst (team_players clean))"
  unfolding team_players_def head_def take_map [symmetric]
  by (rule distinct_take) (rule distinct_fst_sort_values_desc, rule distinct_fst_groupby_nunique)

lemma team_players_length:
  "length (team_players (players_clean ps)) =
   min 20 (card {t. \<exists>r. r \<in> set ps \<and> TeamInitials r = Some t \<and> PlayerName r \<noteq> None})"
proof -
  have "{t. \<exists>r. r \<in> set (players_clean ps) \<and> TeamInitials r = Some t}
        = {t. \<exists>r. r \<in> set ps \<and> TeamInitials r = Some t \<and> PlayerName r \<noteq> None}"
    by (auto simp: players_clean_def)
  then show ?thesis
    by (simp add: team_players_def head_def length_sort_values_desc length_groupby_nunique
        min.commute)
qed

lemma team_players_top:
  assumes "(t, c) \<in> set (team_players (players_clean ps))"
    and "t' \<notin> fst ` set (team_players (players_clean ps))"
  shows "card {n. \<exists>r. r \<in> set ps \<and> TeamInitials r = Some t' \<and> PlayerName r = Some n} \<le> c"
proof -
  let ?clean = "players_clean ps"
  let ?all = "sort_values_desc (groupby_nunique TeamInitials PlayerName ?clean)"
  let ?n = "card {n. \<exists>r. r \<in> set ps \<and> TeamInitials r = Some t' \<and> PlayerName r = Some n}"
  have names: "{n. \<exists>r. r \<in> set ?clean \<and> TeamInitials r = Some t' \<and> PlayerName r = Some n}
        = {n. \<exists>r. r \<in> set ps \<and> TeamInitials r = Some t' \<and> PlayerName r = Some n}"
    by (auto simp: players_clean_def)
  show ?thesis
  proof (cases "\<exists>r. r \<in> set ?clean \<and> TeamInitials r = Some t'")
    case False
    then have "{n. \<exists>r. r \<in> set ps \<and> TeamInitials r = Some t' \<and> PlayerName r = Some n} = {}"
      by (auto simp: players_clean_def)
    then have "?n = 0" by (simp only: card.empty)
    then show ?thesis by linarith
  next
    case True
    then have "(t', ?n) \<in> set ?all"
      by (simp add: set_sort_values_desc set_groupby_nunique names)
    moreover have "(t', ?n) \<notin> set (head 20 ?all)"
      using assms(2) unfolding team_players_def by force
    moreover have "(t, c) \<in> set (head 20 ?all)"
      using assms(1) unfolding team_players_def .
    ultimately show ?thesis
      using head_sorted_top [OF sorted_sort_values_desc, of "(t, c)" 20 _ "(t', ?n)"] by simp
  qed
qed

text \<open>
  Claim C7. For every PlayerAppearance table, each team in the chart of players per
  team (lines 230 and 240) has the number of distinct player names among its rows,
  rows without a player name not counting; that number is at most the number of the
  team's rows; the teams are ordered by descending count, none appears twice, there
  are min(20, number of teams with a named row) of them, and no team left out has
  more distinct names than a team shown. For the three rows (A, FRA), (A, FRA),
  (no name, FRA) the chart is FRA with 1.
\<close>

theorem players_by_team:
  "(\<forall>(t, c) \<in> set (team_players (players_clean ps)).
      c = card {n. \<exists>r. r \<in> set ps \<and> TeamInitials r = Some t \<and> PlayerName r = Some n}
      \<and> c \<le> length (filter (\<lambda>r. TeamInitials r = Some t) ps)
      \<and> (\<forall>t'. t' \<notin> fst ` set (team_players (players_clean ps)) \<longrightarrow>
            card {n. \<exists>r. r \<in> set ps \<and> TeamInitials r = Some t' \<and> PlayerName r = Some n} \<le> c))
   \<and> sorted_wrt (\<lambda>a b. snd b \<le> snd a) (team_players (players_clean ps))
   \<and> distinct (map fst (team_players (players_clean ps)))
   \<and> length (team_players (players_clean ps)) =
       min 20 (card {t. \<exists>r. r \<in> set ps \<and> TeamInitials r = Some t \<and> PlayerName r \<noteq> None})
   \<and> team_players (players_clean
        [sample_player (Some ''A'') (Some ''FRA'') None,
         sample_player (Some ''A'') (Some ''FRA'') None,
         sample_player None (Some ''FRA'') None]) = [(''FRA'', 1)]"
proof -
  have a: "\<forall>(t, c) \<in> set (team_players (players_clean ps)).
      c = card {n. \<exists>r. r \<in> set ps \<and> TeamInitials r = Some t \<and> PlayerName r = Some n}
      \<and> c \<le> length (filter (\<lambda>r. TeamInitials r = Some t) ps)
      \<and> (\<forall>t'. t' \<notin> fst ` set (team_players (players_clean ps)) \<longrightarrow>
            card {n. \<exists>r. r \<in> set ps \<and> TeamInitials r = Some t' \<and> PlayerName r = Some n} \<le> c)"
    using team_players_entry team_players_top by (intro ballI) (clarify, blast)
  have e: "team_players (players_clean
        [sample_player (Some ''A'') (Some ''FRA'') None,
         sample_player (Some ''A'') (Some ''FRA'') None,
         sample_player None (Some ''FRA'') None]) = [(''FRA'', 1)]"
    by (simp add: team_players_def players_clean_def head_def groupby_nunique_def
        sort_values_desc_def)
  from a team_players_sorted team_players_distinct team_players_length e
  show ?thesis by blast
qed

theorem players_by_team_witness:
  "(''FRA'', 1) \<in> set (team_players (players_clean
        [sample_player (Some ''A'') (Some ''FRA'') None,
         sample_player (Some ''A'') (Some ''FRA'') None,
         sample_player None (Some ''FRA'') None]))
   \<and> (1::nat) \<le> length (filter (\<lambda>r. TeamInitials r = Some ''FRA'')
        [sample_player (Some ''A'') (Some ''FRA'') None,
         sample_player (Some ''A'') (Some ''FRA'') None,
         sample_player None (Some ''FRA'') None])
   \<and> (1::nat) = card {n. \<exists>r. r \<in> set
        [sample_player (Some ''A'') (Some ''FRA'') None,
         sample_player (Some ''A'') (Some ''FRA'') None,
         sample_player None (Some ''FRA'') None]
         \<and> TeamInitials r = Some ''FRA'' \<and> PlayerName r = Some n}"
proof -
  let ?ps = "[sample_player (Some ''A'') (Some ''FRA'') None,
         sample_player (Some ''A'') (Some ''FRA'') None,
         sample_player None (Some ''FRA'') None]"
  note inst = players_by_team [of ?ps]
  have run: "team_players (players_clean ?ps) = [(''FRA'', 1)]" using inst by blast
  then have mem: "(''FRA'', 1) \<in> set (team_players (players_clean ?ps))" by simp
  from inst [THEN conjunct1, THEN bspec, OF mem] mem
  show ?thesis by simp
qed

section \<open>Cleaning the Attendance column: the claims\<close>

lemma remove_dots_idem: "remove_dots (remove_dots s) = remove_dots s"
  by (simp add: remove_dots_def)

lemma str_replace_dot_idem: "str_replace_dot (str_replace_dot c) = str_replace_dot c"
  by (cases c) (simp_all add: str_replace_dot_def remove_dots_idem)

lemma is_text_str_replace_dot: "is_text (str_replace_dot c) = is_text c"
  by (cases c) (simp_all add: str_replace_dot_def is_text_def)

lemma not_number_str_replace_dot: "\<not> is_number (str_replace_dot c)"
  by (cases c) (simp_all add: str_replace_dot_def is_number_def)

lemma has_str_accessor_str_replace:
  "has_str_accessor (ObjectDtype, col) \<Longrightarrow> has_str_accessor (ObjectDtype, map str_replace_dot col)"
  by (auto simp: has_str_accessor_def list_ex_iff is_text_str_replace_dot
      not_number_str_replace_dot)

text \<open>
  Claim C6, as the code has it. The cleaning of lines 119 and 154 works on a text
  column only. Removing the dots is idempotent on a string, and cleaning a text
  column whose dots are already removed gives what cleaning the original column
  gives. The cleaned column is numeric, and cleaning it once more does not return
  it: it raises AttributeError.
\<close>

theorem clean_attendance_text_only:
  "remove_dots (remove_dots s) = remove_dots s
   \<and> (has_str_accessor (ObjectDtype, col) \<longrightarrow>
        clean_attendance to_float (ObjectDtype, map str_replace_dot col)
          = clean_attendance to_float (ObjectDtype, col))
   \<and> (clean_attendance to_float column = Inr cleaned \<longrightarrow>
        clean_attendance to_float cleaned = Inl AttributeError)"
proof (intro conjI impI)
  show "remove_dots (remove_dots s) = remove_dots s" by (rule remove_dots_idem)
next
  assume acc: "has_str_accessor (ObjectDtype, col)"
  then have "has_str_accessor (ObjectDtype, map str_replace_dot col)"
    by (rule has_str_accessor_str_replace)
  with acc show "clean_attendance to_float (ObjectDtype, map str_replace_dot col)
          = clean_attendance to_float (ObjectDtype, col)"
    by (simp add: clean_attendance_def str_replace_dot_idem comp_def)
next
  assume "clean_attendance to_float column = Inr cleaned"
  then have "fst cleaned = NumericDtype"
    by (auto simp: clean_attendance_def split: if_splits sum.splits)
  then have "\<not> has_str_accessor cleaned"
    by (simp add: has_str_accessor_def)
  then show "clean_attendance to_float cleaned = Inl AttributeError"
    by (simp add: clean_attendance_def)
qed

text \<open>
  The claim as stated fails: the text 1.045.246 is cleaned to the number 1045246, and
  cleaning that number again raises AttributeError instead of returning it.
\<close>

theorem clean_attendance_counterexample:
  "clean_attendance decimal (ObjectDtype, [StrV ''1.045.246''])
     = Inr (NumericDtype, [NumV 1045246])
   \<and> clean_attendance decimal (NumericDtype, [NumV 1045246]) = Inl AttributeError"
  by (simp add: clean_attendance_def has_str_accessor_def is_text_def str_replace_dot_def
      remove_dots_def cell_to_float_def decimal_def digit_value_def)

theorem clean_attendance_text_only_witness:
  "has_str_accessor (ObjectDtype, [StrV ''590.549'', NaN :: int cell])
   \<and> clean_attendance decimal (ObjectDtype, [StrV ''590.549'', NaN])
       = Inr (NumericDtype, [NumV 590549, NaN])
   \<and> clean_attendance decimal (ObjectDtype, [StrV ''590549'', NaN])
       = Inr (NumericDtype, [NumV 590549, NaN])
   \<and> clean_attendance decimal (NumericDtype, [NumV 590549, NaN]) = Inl AttributeError"
proof -
  let ?col = "[StrV ''590.549'', NaN :: int cell]"
  have acc: "has_str_accessor (ObjectDtype, ?col)"
    by (simp add: has_str_accessor_def is_text_def)
  have run: "clean_attendance decimal (ObjectDtype, ?col) = Inr (NumericDtype, [NumV 590549, NaN])"
    by (simp add: clean_attendance_def has_str_accessor_def is_text_def str_replace_dot_def
      remove_dots_def cell_to_float_def decimal_def digit_value_def)
  note inst = clean_attendance_text_only
    [of _ ?col decimal "(ObjectDtype, ?col)" "(NumericDtype, [NumV 590549, NaN])"]
  have again: "clean_attendance decimal (ObjectDtype, map str_replace_dot ?col)
      = clean_attendance decimal (ObjectDtype, ?col)"
    using inst acc by blast
  have raised: "clean_attendance decimal (NumericDtype, [NumV 590549, NaN]) = Inl AttributeError"
    using inst run by blast
  have "map str_replace_dot ?col = [StrV ''590549'', NaN]"
    by (simp add: str_replace_dot_def remove_dots_def)
  with again run raised acc show ?thesis by simp
qed

section \<open>Loading: the claims\<close>

lemma load_data_failure:
  "isl (WorldCups_csv files) \<or> isl (WorldCupMatches_csv files) \<or> isl (WorldCupPlayers_csv files)
   \<Longrightarrow> fst (load_data files h) = (None, None, None) \<and>
       fst (snd (load_data files h)) =
         [ErrorMsg (''Error loading data: '' @
            (if isl (WorldCups_csv files) then projl (WorldCups_csv files)
             else if isl (WorldCupMatches_csv files) then projl (WorldCupMatches_csv files)
             else projl (WorldCupPlayers_csv files)))]"
  by (auto simp: load_data_def alloc_def split: sum.splits)

text \<open>
  Claim C3. If reading any one of the three files raises, then \<open>load_data\<close> returns
  \<open>None, None, None\<close>, and the page that \<open>main\<close> produces consists of the header and
  two error boxes, the first with the text of the exception of the first file that
  failed: \<open>main\<close> returns without running a view, so nothing is computed from any
  table, whichever page is selected.
\<close>

theorem load_failure_suppresses_views:
  "isl (WorldCups_csv files) \<or> isl (WorldCupMatches_csv files) \<or> isl (WorldCupPlayers_csv files)
   \<Longrightarrow>
     fst (load_data files h) = (None, None, None)
   \<and> fst (main m to_float files page h) =
       [Header,
        ErrorMsg (''Error loading data: '' @
            (if isl (WorldCups_csv files) then projl (WorldCups_csv files)
             else if isl (WorldCupMatches_csv files) then projl (WorldCupMatches_csv files)
             else projl (WorldCupPlayers_csv files))),
        ErrorMsg ''Failed to load data. Please check if CSV files are present.'']"
proof -
  assume fails: "isl (WorldCups_csv files) \<or> isl (WorldCupMatches_csv files)
    \<or> isl (WorldCupPlayers_csv files)"
  note l = load_data_failure [OF fails, of h]
  obtain r log h1 where ld: "load_data files h = (r, log, h1)"
    by (cases "load_data files h") auto
  with l have r: "r = (None, None, None)" and log: "log =
         [ErrorMsg (''Error loading data: '' @
            (if isl (WorldCups_csv files) then projl (WorldCups_csv files)
             else if isl (WorldCupMatches_csv files) then projl (WorldCupMatches_csv files)
             else projl (WorldCupPlayers_csv files)))]"
    by simp_all
  have "fst (main m to_float files page h) = Header # log @
      [ErrorMsg ''Failed to load data. Please check if CSV files are present.'']"
    by (simp add: main_def ld r)
  then show ?thesis using l log by simp
qed

theorem load_failure_suppresses_views_witness:
  "isl (WorldCupMatches_csv
      \<lparr>WorldCups_csv = Inr [sample_cup 1930 (Some ''Uruguay'') (StrV ''590.549'')],
       WorldCupMatches_csv = Inl ''No such file or directory'',
       WorldCupPlayers_csv = Inr []\<rparr>)
   \<and> fst (load_data
      \<lparr>WorldCups_csv = Inr [sample_cup 1930 (Some ''Uruguay'') (StrV ''590.549'')],
       WorldCupMatches_csv = Inl ''No such file or directory'',
       WorldCupPlayers_csv = Inr []\<rparr> []) = (None, None, None)
   \<and> fst (main int64_machine decimal
      \<lparr>WorldCups_csv = Inr [sample_cup 1930 (Some ''Uruguay'') (StrV ''590.549'')],
       WorldCupMatches_csv = Inl ''No such file or directory'',
       WorldCupPlayers_csv = Inr []\<rparr> MatchStatistics []) =
       [Header, ErrorMsg ''Error loading data: No such file or directory'',
        ErrorMsg ''Failed to load data. Please check if CSV files are present.'']"
proof -
  let ?files = "\<lparr>WorldCups_csv = Inr [sample_cup 1930 (Some ''Uruguay'') (StrV ''590.549'')],
       WorldCupMatches_csv = Inl ''No such file or directory'',
       WorldCupPlayers_csv = Inr []\<rparr>"
  have fails: "isl (WorldCups_csv ?files) \<or> isl (WorldCupMatches_csv ?files)
    \<or> isl (WorldCupPlayers_csv ?files)" by simp
  from load_failure_suppresses_views [OF fails, of "[]" int64_machine decimal MatchStatistics]
  show ?thesis by simp
qed

section \<open>The loaded tables are not written to\<close>

lemma frame_at_fresh: "frame_at (h @ [f]) (length h) = Some f"
  by (simp add: frame_at_def)

lemma frame_at_old: "frame_at h a = Some g \<Longrightarrow> frame_at (h @ [f]) a = Some g"
  by (simp add: frame_at_def nth_append split: if_splits)

lemma store_frame_fresh: "store_frame (length h) g (h @ [f]) = h @ [g]"
  by (simp add: store_frame_def)

lemma show_overview_store:
  "take (length h) (snd (show_overview to_float world_cups matches players h)) = h"
  by (simp add: show_overview_def alloc_def frame_at_fresh store_frame_fresh Let_def
      split: option.splits frame.splits sum.splits)

lemma show_winners_store: "snd (show_winners world_cups h) = h"
  by (simp add: show_winners_def split: option.splits frame.splits)

lemma show_goals_attendance_store:
  "take (length h) (snd (show_goals_attendance to_float world_cups matches h)) = h"
  by (simp add: show_goals_attendance_def alloc_def frame_at_fresh store_frame_fresh Let_def
      split: option.splits frame.splits sum.splits)

lemma show_match_stats_store:
  "take (length h) (snd (show_match_stats mc matches h)) = h"
  by (simp add: show_match_stats_def alloc_def frame_at_fresh store_frame_fresh Let_def
      split: option.splits frame.splits)

lemma show_player_analysis_store:
  "take (length h) (snd (show_player_analysis players matches h)) = h"
  by (simp add: show_player_analysis_def alloc_def frame_at_fresh Let_def
      split: option.splits frame.splits)

lemma main_store:
  "take (length (snd (snd (load_data files h)))) (snd (main mc to_float files page h))
   = snd (snd (load_data files h))"
proof -
  obtain w m p log h1 where ld: "load_data files h = ((w, m, p), log, h1)"
    by (metis prod.exhaust)
  show ?thesis
  proof (cases "w = None \<or> m = None \<or> p = None")
    case True
    then show ?thesis by (auto simp: main_def ld)
  next
    case False
    then show ?thesis
      using show_overview_store [of h1 to_float "the w" "the m" "the p"]
        show_winners_store [of "the w" h1]
        show_goals_attendance_store [of h1 to_float "the w" "the m"]
        show_match_stats_store [of h1 mc "the m"]
        show_player_analysis_store [of h1 "the p" "the m"]
      by (cases page) (auto simp: main_def ld Let_def split: prod.splits)
  qed
qed

lemma load_data_store: "take (length h) (snd (snd (load_data files h))) = h"
  by (auto simp: load_data_def alloc_def split: sum.splits)

text \<open>
  What a view returns when it is given the frame it expects: the aggregates of the
  sections above, computed from the frame it built, which is the one new frame of
  the store.
\<close>

lemma show_match_stats_run:
  "frame_at h matches = Some (Matches dt ms) \<Longrightarrow>
   show_match_stats mc matches h =
     (match_stats mc dt (matches_clean (add_goals mc) ms),
      h @ [MatchesTG dt (matches_clean (add_goals mc) ms)])"
  by (simp add: show_match_stats_def alloc_def frame_at_fresh store_frame_fresh
      matches_clean_def)

lemma show_player_analysis_run:
  "frame_at h players = Some (Players ps) \<Longrightarrow>
   show_player_analysis players matches h =
     (player_analysis (players_clean ps), h @ [Players (players_clean ps)])"
  by (simp add: show_player_analysis_def alloc_def frame_at_fresh)

lemma show_winners_run:
  "frame_at h world_cups = Some (WorldCups dt wc) \<Longrightarrow>
   show_winners world_cups h = (Inr (winners wc), h)"
  by (simp add: show_winners_def)

lemma show_goals_attendance_run:
  "frame_at h world_cups = Some (WorldCups dt wc) \<Longrightarrow>
   clean_attendance to_float (dt, map Attendance wc) = Inr (cdt, col) \<Longrightarrow>
   show_goals_attendance to_float world_cups matches h =
     (Inr \<lparr>out_goals_series = map (\<lambda>r. (Year r, GoalsScored r)) wc,
           out_world_cups_clean = set_attendance wc col\<rparr>,
      h @ [WorldCups cdt (set_attendance wc col)])"
  by (simp add: show_goals_attendance_def alloc_def frame_at_fresh store_frame_fresh
      frame_at_old)

lemma show_overview_run:
  "frame_at h world_cups = Some (WorldCups dt wc) \<Longrightarrow>
   clean_attendance to_float (dt, map Attendance (tail 5 wc)) = Inr (cdt, col) \<Longrightarrow>
   show_overview to_float world_cups matches players h =
     (Inr \<lparr>out_tournaments = length wc,
           out_total_goals = int64_sum (map GoalsScored wc),
           out_total_matches = int64_sum (map MatchesPlayed wc),
           out_total_teams = int64_sum (map QualifiedTeams wc),
           out_recent_cups = set_recent_attendance (map recent_columns (tail 5 wc)) col\<rparr>,
      h @ [Recent cdt (set_recent_attendance (map recent_columns (tail 5 wc)) col)])"
  by (simp add: show_overview_def alloc_def frame_at_fresh store_frame_fresh comp_def
      recent_columns_def)

text \<open>Where a view ends with the exception of \<open>nlargest\<close> or of a bar chart.\<close>

lemma show_match_stats_no_rows:
  "frame_at h matches = Some (Matches ObjectDtype []) \<Longrightarrow>
   fst (show_match_stats mc matches h) = Inl (TypeError ''nlargest'')"
  by (simp add: show_match_stats_run match_stats_def highest_scoring_def nlargest_def)

lemma match_stats_no_stage:
  "stage_counts clean = [] \<Longrightarrow> match_stats mc NumericDtype clean = Inl (ValueError ''px.bar'')"
  by (simp add: match_stats_def highest_scoring_def nlargest_def bar_chart_def Let_def)

lemma player_analysis_no_position:
  "position_counts clean = [] \<Longrightarrow> player_analysis clean = Inl (ValueError ''px.bar'')"
  by (simp add: player_analysis_def bar_chart_def)

lemma load_data_success:
  "WorldCups_csv files = Inr wc \<Longrightarrow> WorldCupMatches_csv files = Inr ms \<Longrightarrow>
   WorldCupPlayers_csv files = Inr ps \<Longrightarrow>
   load_data files h =
     ((Some (length h), Some (length h + 1), Some (length h + 2)), [],
      h @ [WorldCups (read_csv_dtype (map Attendance wc)) wc,
           Matches (read_csv_goals_dtype ms) ms, Players ps])"
  by (simp add: load_data_def alloc_def)

lemma frame_at_take:
  "take n s = h \<Longrightarrow> a < length h \<Longrightarrow> frame_at s a = Some (h ! a)"
  by (auto simp: frame_at_def)

text \<open>
  Claim C9. No view changes a frame that existed when it was called: after each of
  the five views the store, cut to its length before the call, is the store before
  the call. The column assignments of lines 119, 154 and 190 go to the frame built
  by \<open>tail(5)[[...]]\<close>, \<open>copy()\<close> and \<open>dropna\<close>, which sits at a fresh address. The
  same holds for \<open>main\<close> from the moment the files are loaded; in particular, when
  all three files load, the three frames are still the ones read from the files
  after the selected view has run, also when the view ends with an exception.
\<close>

theorem views_keep_loaded_tables:
  "take (length h) (snd (show_overview to_float w m p h)) = h
   \<and> snd (show_winners w h) = h
   \<and> take (length h) (snd (show_goals_attendance to_float w m h)) = h
   \<and> take (length h) (snd (show_match_stats mc m h)) = h
   \<and> take (length h) (snd (show_player_analysis p m h)) = h
   \<and> take (length (snd (snd (load_data files h)))) (snd (main mc to_float files page h))
       = snd (snd (load_data files h))
   \<and> (WorldCups_csv files = Inr wc \<and> WorldCupMatches_csv files = Inr ms
        \<and> WorldCupPlayers_csv files = Inr ps \<longrightarrow>
        fst (load_data files h) = (Some (length h), Some (length h + 1), Some (length h + 2))
        \<and> frame_at (snd (main mc to_float files page h)) (length h)
            = Some (WorldCups (read_csv_dtype (map Attendance wc)) wc)
        \<and> frame_at (snd (main mc to_float files page h)) (length h + 1)
            = Some (Matches (read_csv_goals_dtype ms) ms)
        \<and> frame_at (snd (main mc to_float files page h)) (length h + 2) = Some (Players ps))"
proof -
  have loaded: "fst (load_data files h) = (Some (length h), Some (length h + 1), Some (length h + 2))
        \<and> frame_at (snd (main mc to_float files page h)) (length h)
            = Some (WorldCups (read_csv_dtype (map Attendance wc)) wc)
        \<and> frame_at (snd (main mc to_float files page h)) (length h + 1)
            = Some (Matches (read_csv_goals_dtype ms) ms)
        \<and> frame_at (snd (main mc to_float files page h)) (length h + 2) = Some (Players ps)"
    if ok: "WorldCups_csv files = Inr wc \<and> WorldCupMatches_csv files = Inr ms
        \<and> WorldCupPlayers_csv files = Inr ps"
  proof -
    let ?h1 = "h @ [WorldCups (read_csv_dtype (map Attendance wc)) wc,
                    Matches (read_csv_goals_dtype ms) ms, Players ps]"
    have ld: "load_data files h =
      ((Some (length h), Some (length h + 1), Some (length h + 2)), [], ?h1)"
      using ok by (simp add: load_data_success)
    have keep: "take (length ?h1) (snd (main mc to_float files page h)) = ?h1"
      using main_store [of files h mc to_float page] by (simp add: ld)
    have "frame_at (snd (main mc to_float files page h)) (length h) = Some (?h1 ! length h)"
      by (rule frame_at_take [OF keep]) simp
    moreover
    have "frame_at (snd (main mc to_float files page h)) (length h + 1)
        = Some (?h1 ! (length h + 1))"
      by (rule frame_at_take [OF keep]) simp
    moreover
    have "frame_at (snd (main mc to_float files page h)) (length h + 2)
        = Some (?h1 ! (length h + 2))"
      by (rule frame_at_take [OF keep]) simp
    ultimately show ?thesis by (simp add: ld nth_append)
  qed
  show ?thesis
    using loaded
    by (simp add: show_overview_store show_winners_store show_goals_attendance_store
        show_match_stats_store show_player_analysis_store main_store)
qed

theorem views_keep_loaded_tables_witness:
  "main int64_machine decimal
     \<lparr>WorldCups_csv = Inr [sample_cup 1930 (Some ''Uruguay'') (StrV ''1.045.246'')],
      WorldCupMatches_csv = Inr [sample_match (Some ''Final'') (Some 3) (Some 2),
                                 sample_match (Some ''Final'') None (Some 1)],
      WorldCupPlayers_csv = Inr []\<rparr> GoalsAttendance []
   = ([Header, Shown (GoalsAttendanceOut
         \<lparr>out_goals_series = [(1930, 70)],
          out_world_cups_clean = [sample_cup 1930 (Some ''Uruguay'') (NumV 1045246)]\<rparr>)],
      [WorldCups ObjectDtype [sample_cup 1930 (Some ''Uruguay'') (StrV ''1.045.246'')],
       Matches NumericDtype [sample_match (Some ''Final'') (Some 3) (Some 2),
                sample_match (Some ''Final'') None (Some 1)],
       Players [],
       WorldCups NumericDtype [sample_cup 1930 (Some ''Uruguay'') (NumV 1045246)]])
   \<and> frame_at (snd (main int64_machine decimal
     \<lparr>WorldCups_csv = Inr [sample_cup 1930 (Some ''Uruguay'') (StrV ''1.045.246'')],
      WorldCupMatches_csv = Inr [sample_match (Some ''Final'') (Some 3) (Some 2),
                                 sample_match (Some ''Final'') None (Some 1)],
      WorldCupPlayers_csv = Inr []\<rparr> GoalsAttendance [])) 0
     = Some (WorldCups ObjectDtype [sample_cup 1930 (Some ''Uruguay'') (StrV ''1.045.246'')])"
proof -
  let ?wc = "[sample_cup 1930 (Some ''Uruguay'') (StrV ''1.045.246'')]"
  let ?ms = "[sample_match (Some ''Final'') (Some 3) (Some 2),
              sample_match (Some ''Final'') None (Some 1)]"
  let ?files = "\<lparr>WorldCups_csv = Inr ?wc, WorldCupMatches_csv = Inr ?ms,
      WorldCupPlayers_csv = Inr ([] :: player list)\<rparr>"
  have ok: "WorldCups_csv ?files = Inr ?wc \<and> WorldCupMatches_csv ?files = Inr ?ms
        \<and> WorldCupPlayers_csv ?files = Inr []" by simp
  have dt: "read_csv_dtype (map Attendance ?wc) = ObjectDtype"
    by (simp add: read_csv_dtype_def is_text_def)
  have kept: "frame_at (snd (main int64_machine decimal ?files GoalsAttendance [])) 0
      = Some (WorldCups ObjectDtype ?wc)"
    using views_keep_loaded_tables
      [of "[]" decimal _ _ _ int64_machine ?files GoalsAttendance ?wc ?ms "[]"] ok dt
    by simp
  have cleaned: "clean_attendance decimal (ObjectDtype, map Attendance ?wc)
      = Inr (NumericDtype, [NumV 1045246])"
    by (simp add: clean_attendance_def has_str_accessor_def is_text_def str_replace_dot_def
      remove_dots_def cell_to_float_def decimal_def digit_value_def)
  have run: "main int64_machine decimal ?files GoalsAttendance []
   = ([Header, Shown (GoalsAttendanceOut
         \<lparr>out_goals_series = [(1930, 70)],
          out_world_cups_clean = [sample_cup 1930 (Some ''Uruguay'') (NumV 1045246)]\<rparr>)],
      [WorldCups ObjectDtype ?wc, Matches NumericDtype ?ms, Players [],
       WorldCups NumericDtype [sample_cup 1930 (Some ''Uruguay'') (NumV 1045246)]])"
    using cleaned dt
    by (simp add: main_def load_data_def alloc_def read_csv_goals_dtype_def
        show_goals_attendance_run
          [where wc = ?wc and col = "[NumV 1045246]" and dt = ObjectDtype and cdt = NumericDtype]
        frame_at_def view_event_def set_attendance_def)
  show ?thesis using run kept by simp
qed

end
